theory Spec2Isabelle
  imports Main "HOL-Library.Word" "HOL-Library.Sublist"
begin

section \<open>JavaScript strings and the string primitives the SDK calls\<close>

text \<open>
  A JavaScript string is a sequence of UTF-16 code units, and \<open>.length\<close>,
  \<open>substring\<close>, \<open>padEnd\<close> and \<open>padStart\<close> all count code units.  The model
  keeps exactly that: a string is a list of 16-bit words, and \<open>length\<close> on the list is
  the \<open>.length\<close> of the source.  \<open>js\<close> embeds an ASCII literal of the source.
\<close>

type_synonym code_unit = "16 word"
type_synonym jsstring = "code_unit list"

definition js :: "string \<Rightarrow> jsstring" where
  "js s = map (\<lambda>c. of_nat (of_char c)) s"

text \<open>
  \<open>String.prototype.substring(start, end)\<close>: both indices are clamped to
  \<open>[0, length]\<close> and swapped when out of order.
\<close>

definition substring :: "jsstring \<Rightarrow> int \<Rightarrow> int \<Rightarrow> jsstring" where
  "substring s start stop =
     (let len = int (length s);
          finalStart = min (max start 0) len;
          finalEnd = min (max stop 0) len;
          lo = min finalStart finalEnd;
          hi = max finalStart finalEnd
      in take (nat (hi - lo)) (drop (nat lo) s))"

text \<open>
  The filler of \<open>padEnd\<close>/\<open>padStart\<close>: the fill string repeated and cut to the
  number of missing code units.
\<close>

definition string_filler :: "jsstring \<Rightarrow> nat \<Rightarrow> jsstring" where
  "string_filler fillString n = take n (concat (replicate n fillString))"

text \<open>
  \<open>String.prototype.padEnd(maxLength, fillString)\<close> and \<open>padStart\<close>: a target
  length that is not above the current length (a negative one counts as 0), or an empty
  fill string, returns the string unchanged; neither ever shortens the string.
\<close>

definition padEnd :: "jsstring \<Rightarrow> int \<Rightarrow> jsstring \<Rightarrow> jsstring" where
  "padEnd s maxLength fillString =
     (let intMaxLength = max maxLength 0;
          stringLength = int (length s)
      in if intMaxLength \<le> stringLength then s
         else if fillString = [] then s
         else s @ string_filler fillString (nat (intMaxLength - stringLength)))"

definition padStart :: "jsstring \<Rightarrow> int \<Rightarrow> jsstring \<Rightarrow> jsstring" where
  "padStart s maxLength fillString =
     (let intMaxLength = max maxLength 0;
          stringLength = int (length s)
      in if intMaxLength \<le> stringLength then s
         else if fillString = [] then s
         else string_filler fillString (nat (intMaxLength - stringLength)) @ s)"

text \<open>
  \<open>String(n)\<close> for an integral number.  Up to \<open>Number.MAX_SAFE_INTEGER\<close> in
  magnitude it is the decimal digits of the number, with a leading minus sign for a
  negative value.  Beyond, the platform prints rounded digits and, from \<open>10^21\<close>,
  exponent notation (\<open>String(1e21)\<close> is \<open>"1e+21"\<close>): that rendering is not
  computed here but taken as the parameter \<open>beyond\<close>, so that nothing is said of
  such a number that depends on how it prints.  Every function below that prints a
  number takes \<open>beyond\<close> as its first argument.  Numbers that are not integral are
  outside the model.
\<close>

fun digits :: "nat \<Rightarrow> jsstring" where
  "digits n = (if n < 10 then [of_nat (48 + n)]
               else digits (n div 10) @ [of_nat (48 + n mod 10)])"

declare digits.simps [simp del]

definition MAX_SAFE_INTEGER :: int where
  "MAX_SAFE_INTEGER = 9007199254740991"

definition number_to_string :: "(int \<Rightarrow> jsstring) \<Rightarrow> int \<Rightarrow> jsstring" where
  "number_to_string beyond n =
     (if \<bar>n\<bar> \<le> MAX_SAFE_INTEGER
      then (if n < 0 then js ''-'' @ digits (nat (- n)) else digits (nat n))
      else beyond n)"

section \<open>Field codec\<close>

text \<open>\<open>padString(value, length, fillChar = " ")\<close>\<close>

definition padString :: "jsstring \<Rightarrow> int \<Rightarrow> jsstring \<Rightarrow> jsstring" where
  "padString val len fillChar =
     (if int (length val) > len then substring val 0 len
      else padEnd val len fillChar)"

text \<open>\<open>padNumber(value, length)\<close>\<close>

definition padNumber :: "(int \<Rightarrow> jsstring) \<Rightarrow> int \<Rightarrow> int \<Rightarrow> jsstring" where
  "padNumber beyond val len = padStart (number_to_string beyond val) len (js ''0'')"

text \<open>
  A \<open>Date\<close> is read only through its local-time getters, so it is modelled by what
  they return: day of month, month (0 to 11), full year, hours, minutes.
\<close>

record Date =
  getDate :: int
  getMonth :: int
  getFullYear :: int
  getHours :: int
  getMinutes :: int

definition formatDate :: "(int \<Rightarrow> jsstring) \<Rightarrow> Date \<Rightarrow> bool \<Rightarrow> jsstring" where
  "formatDate beyond date withTime =
     (let day = padStart (number_to_string beyond (getDate date)) 2 (js ''0'');
          month = padStart (number_to_string beyond (getMonth date + 1)) 2 (js ''0'');
          year = number_to_string beyond (getFullYear date)
      in if withTime then
           (let hours = padStart (number_to_string beyond (getHours date)) 2 (js ''0'');
                minutes = padStart (number_to_string beyond (getMinutes date)) 2 (js ''0'')
            in day @ js ''/'' @ month @ js ''/'' @ year @ js '' '' @ hours @ js '':'' @ minutes)
         else day @ js ''/'' @ month @ js ''/'' @ year)"

section \<open>Data model\<close>

text \<open>
  The enums of the SDK.  Each member is a constructor; \<open>PaymentType_value\<close>,
  \<open>VehicleType_value\<close> and \<open>DocumentType_value\<close> give the string the member is
  declared with, which is what the record receives.  A member name used by two enums, or by HOL,
  carries the enum's name as a suffix.
\<close>

datatype PaymentType = CASH | CARD_PaymentType | BANK | OTHER_PaymentType

fun PaymentType_value :: "PaymentType \<Rightarrow> jsstring" where
  "PaymentType_value CASH = js ''C''"
| "PaymentType_value CARD_PaymentType = js ''T''"
| "PaymentType_value BANK = js ''B''"
| "PaymentType_value OTHER_PaymentType = js ''A''"

datatype VehicleType = CAR | MOTORCYCLE | TRUCK | OTHER_VehicleType

fun VehicleType_value :: "VehicleType \<Rightarrow> jsstring" where
  "VehicleType_value CAR = js ''A''"
| "VehicleType_value MOTORCYCLE = js ''M''"
| "VehicleType_value TRUCK = js ''C''"
| "VehicleType_value OTHER_VehicleType = js ''A''"

datatype DocumentType = PASSPORT | ID_CARD | DRIVERS_LICENSE | VISA | RESIDENCE_PERMIT

fun DocumentType_value :: "DocumentType \<Rightarrow> jsstring" where
  "DocumentType_value PASSPORT = js ''P''"
| "DocumentType_value ID_CARD = js ''C''"
| "DocumentType_value DRIVERS_LICENSE = js ''P''"
| "DocumentType_value VISA = js ''V''"
| "DocumentType_value RESIDENCE_PERMIT = js ''S''"

text \<open>
  The interfaces.  A field keeps its source name behind the name of its interface
  (several interfaces share \<open>name\<close>, \<open>id\<close>, \<open>phone\<close>); the fields of
  \<open>RentalContract\<close> keep their names as they are, \<open>id\<close> apart.  An optional field
  (\<open>?:\<close>) is an \<open>option\<close>.
\<close>

record Location =
  location_code :: int
  location_name :: "jsstring option"

record Driver =
  driver_surname :: jsstring
  driver_name :: jsstring
  driver_birthDate :: Date
  driver_birthPlace :: Location
  driver_citizenship :: Location
  driver_residencePlace :: "Location option"
  driver_residenceAddress :: "jsstring option"
  driver_documentType :: DocumentType
  driver_documentNumber :: jsstring
  driver_documentIssuePlace :: Location
  driver_licenseNumber :: jsstring
  driver_licenseIssuePlace :: Location
  driver_phone :: "jsstring option"

record Vehicle =
  vehicle_type :: VehicleType
  vehicle_brand :: jsstring
  vehicle_model :: jsstring
  vehicle_plate :: jsstring
  vehicle_color :: "jsstring option"
  vehicle_hasGPS :: "bool option"
  vehicle_hasEngineBlock :: "bool option"

record Agency =
  agency_id :: jsstring
  agency_name :: jsstring
  agency_location :: Location
  agency_address :: jsstring
  agency_phone :: jsstring

record RentalContract =
  contract_id :: jsstring
  createdDate :: Date
  paymentType :: PaymentType
  checkoutDate :: Date
  checkoutLocation :: Location
  checkoutAddress :: jsstring
  checkinDate :: Date
  checkinLocation :: Location
  checkinAddress :: jsstring
  operatorId :: jsstring
  agency :: Agency
  vehicle :: Vehicle
  mainDriver :: Driver
  secondaryDriver :: "Driver option"

section \<open>Record composer\<close>

text \<open>
  \<open>s || ""\<close> on an optional string: the string itself, or the empty string when it is
  absent (or empty).  \<open>b ? "1" : "0"\<close> on an optional boolean: absent counts as false.
\<close>

definition or_empty :: "jsstring option \<Rightarrow> jsstring" where
  "or_empty s = (case s of None \<Rightarrow> [] | Some t \<Rightarrow> t)"

definition flag :: "bool option \<Rightarrow> jsstring" where
  "flag b = (if b = Some True then js ''1'' else js ''0'')"

definition formatDriver :: "(int \<Rightarrow> jsstring) \<Rightarrow> Driver \<Rightarrow> jsstring" where
  "formatDriver beyond driver =
     padString (driver_surname driver) 50 (js '' '')
     @ padString (driver_name driver) 30 (js '' '')
     @ padEnd (formatDate beyond (driver_birthDate driver) False) 10 (js '' '')
     @ padNumber beyond (location_code (driver_birthPlace driver)) 9
     @ padNumber beyond (location_code (driver_citizenship driver)) 9
     @ (case driver_residencePlace driver of
          Some place \<Rightarrow> padNumber beyond (location_code place) 9
        | None \<Rightarrow> js ''         '')
     @ padString (or_empty (driver_residenceAddress driver)) 150 (js '' '')
     @ padString (DocumentType_value (driver_documentType driver)) 5 (js '' '')
     @ padString (driver_documentNumber driver) 20 (js '' '')
     @ padNumber beyond (location_code (driver_documentIssuePlace driver)) 9
     @ padString (driver_licenseNumber driver) 20 (js '' '')
     @ padNumber beyond (location_code (driver_licenseIssuePlace driver)) 9
     @ padString (or_empty (driver_phone driver)) 20 (js '' '')"

text \<open>\<open>String.prototype.repeat(count)\<close>\<close>

definition repeat :: "jsstring \<Rightarrow> nat \<Rightarrow> jsstring" where
  "repeat s count = concat (replicate count s)"

definition formatContract :: "(int \<Rightarrow> jsstring) \<Rightarrow> RentalContract \<Rightarrow> jsstring" where
  "formatContract beyond contract =
     padString (contract_id contract) 50 (js '' '')
     @ padEnd (formatDate beyond (createdDate contract) True) 16 (js '' '')
     @ PaymentType_value (paymentType contract)
     @ padEnd (formatDate beyond (checkoutDate contract) True) 16 (js '' '')
     @ padNumber beyond (location_code (checkoutLocation contract)) 9
     @ padString (checkoutAddress contract) 150 (js '' '')
     @ padEnd (formatDate beyond (checkinDate contract) True) 16 (js '' '')
     @ padNumber beyond (location_code (checkinLocation contract)) 9
     @ padString (checkinAddress contract) 150 (js '' '')
     @ padString (operatorId contract) 50 (js '' '')
     @ padString (agency_id (agency contract)) 30 (js '' '')
     @ padString (agency_name (agency contract)) 70 (js '' '')
     @ padNumber beyond (location_code (agency_location (agency contract))) 9
     @ padString (agency_address (agency contract)) 150 (js '' '')
     @ padString (agency_phone (agency contract)) 20 (js '' '')
     @ VehicleType_value (vehicle_type (vehicle contract))
     @ padString (vehicle_brand (vehicle contract)) 50 (js '' '')
     @ padString (vehicle_model (vehicle contract)) 100 (js '' '')
     @ padString (vehicle_plate (vehicle contract)) 15 (js '' '')
     @ padString (or_empty (vehicle_color (vehicle contract))) 50 (js '' '')
     @ flag (vehicle_hasGPS (vehicle contract))
     @ flag (vehicle_hasEngineBlock (vehicle contract))
     @ formatDriver beyond (mainDriver contract)
     @ (case secondaryDriver contract of
          Some driver \<Rightarrow> formatDriver beyond driver
        | None \<Rightarrow> repeat (js '' '') 190)"

section \<open>Validation\<close>

text \<open>
  \<open>isValidContractData\<close> pushes one message for each check that fails.  On a string,
  \<open>!s\<close> is true exactly for the empty string.
\<close>

definition isValidContractData :: "RentalContract \<Rightarrow> jsstring list" where
  "isValidContractData contract =
     (let errors = [];
          errors = (if contract_id contract = [] \<or> length (contract_id contract) > 50
                    then errors @ [js ''Contract ID must be between 1 and 50 characters'']
                    else errors);
          errors = (if agency_id (agency contract) = [] \<or> length (agency_id (agency contract)) > 30
                    then errors @ [js ''Agency ID must be between 1 and 30 characters'']
                    else errors);
          errors = (if length (checkoutAddress contract) < 3
                    then errors @ [js ''Checkout address must be at least 3 characters'']
                    else errors);
          errors = (if length (checkinAddress contract) < 3
                    then errors @ [js ''Checkin address must be at least 3 characters'']
                    else errors);
          errors = (if length (driver_documentNumber (mainDriver contract)) < 5
                    then errors @ [js ''Document number must be at least 5 characters'']
                    else errors);
          errors = (if length (driver_licenseNumber (mainDriver contract)) < 5
                    then errors @ [js ''License number must be at least 5 characters'']
                    else errors);
          errors = (if length (vehicle_plate (vehicle contract)) < 3
                    then errors @ [js ''Vehicle plate must be at least 3 characters'']
                    else errors);
          errors = (if (case secondaryDriver contract of
                          None \<Rightarrow> False
                        | Some driver \<Rightarrow>
                            driver_surname driver = [] \<or> driver_name driver = []
                            \<or> driver_documentNumber driver = [])
                    then errors @ [js ''Secondary driver must have all required fields or be removed'']
                    else errors)
      in errors)"

text \<open>
  The rule table as the specification words it, to compare with the code: eight rules,
  each a condition a contract satisfies or violates, and one message per rule.
\<close>

datatype rule =
    ContractIdBounds | AgencyIdBounds | CheckoutAddressMin | CheckinAddressMin
  | DocumentNumberMin | LicenseNumberMin | VehiclePlateMin | SecondaryDriverComplete

definition rule_table :: "rule list" where
  "rule_table = [ContractIdBounds, AgencyIdBounds, CheckoutAddressMin, CheckinAddressMin,
                 DocumentNumberMin, LicenseNumberMin, VehiclePlateMin, SecondaryDriverComplete]"

fun satisfies :: "RentalContract \<Rightarrow> rule \<Rightarrow> bool" where
  "satisfies c ContractIdBounds = (1 \<le> length (contract_id c) \<and> length (contract_id c) \<le> 50)"
| "satisfies c AgencyIdBounds =
     (1 \<le> length (agency_id (agency c)) \<and> length (agency_id (agency c)) \<le> 30)"
| "satisfies c CheckoutAddressMin = (3 \<le> length (checkoutAddress c))"
| "satisfies c CheckinAddressMin = (3 \<le> length (checkinAddress c))"
| "satisfies c DocumentNumberMin = (5 \<le> length (driver_documentNumber (mainDriver c)))"
| "satisfies c LicenseNumberMin = (5 \<le> length (driver_licenseNumber (mainDriver c)))"
| "satisfies c VehiclePlateMin = (3 \<le> length (vehicle_plate (vehicle c)))"
| "satisfies c SecondaryDriverComplete =
     (case secondaryDriver c of
        None \<Rightarrow> True
      | Some d \<Rightarrow> 0 < length (driver_surname d) \<and> 0 < length (driver_name d)
                  \<and> 0 < length (driver_documentNumber d))"

fun violation :: "rule \<Rightarrow> jsstring" where
  "violation ContractIdBounds = js ''Contract ID must be between 1 and 50 characters''"
| "violation AgencyIdBounds = js ''Agency ID must be between 1 and 30 characters''"
| "violation CheckoutAddressMin = js ''Checkout address must be at least 3 characters''"
| "violation CheckinAddressMin = js ''Checkin address must be at least 3 characters''"
| "violation DocumentNumberMin = js ''Document number must be at least 5 characters''"
| "violation LicenseNumberMin = js ''License number must be at least 5 characters''"
| "violation VehiclePlateMin = js ''Vehicle plate must be at least 3 characters''"
| "violation SecondaryDriverComplete =
     js ''Secondary driver must have all required fields or be removed''"

definition validate_spec :: "RentalContract \<Rightarrow> jsstring list" where
  "validate_spec c = map violation (filter (\<lambda>r. \<not> satisfies c r) rule_table)"

section \<open>Token encryption\<close>

text \<open>
  \<open>Buffer.from(s, "utf-8")\<close>: the UTF-8 bytes of a string of UTF-16 code units.  A
  surrogate pair is one code point of four bytes; a surrogate on its own is replaced by
  U+FFFD.
\<close>

type_synonym byte = "8 word"

definition utf8_code_point :: "nat \<Rightarrow> byte list" where
  "utf8_code_point cp =
     (if cp < 0x80 then [of_nat cp]
      else if cp < 0x800 then [of_nat (0xC0 + cp div 64), of_nat (0x80 + cp mod 64)]
      else if cp < 0x10000 then
        [of_nat (0xE0 + cp div 4096), of_nat (0x80 + cp div 64 mod 64), of_nat (0x80 + cp mod 64)]
      else
        [of_nat (0xF0 + cp div 262144), of_nat (0x80 + cp div 4096 mod 64),
         of_nat (0x80 + cp div 64 mod 64), of_nat (0x80 + cp mod 64)])"

definition high_surrogate :: "code_unit \<Rightarrow> bool" where
  "high_surrogate u = (0xD800 \<le> u \<and> u \<le> 0xDBFF)"

definition low_surrogate :: "code_unit \<Rightarrow> bool" where
  "low_surrogate u = (0xDC00 \<le> u \<and> u \<le> 0xDFFF)"

definition utf8_unit :: "code_unit \<Rightarrow> byte list" where
  "utf8_unit u = (if high_surrogate u \<or> low_surrogate u then utf8_code_point 0xFFFD
                  else utf8_code_point (unat u))"

fun utf8 :: "jsstring \<Rightarrow> byte list" where
  "utf8 [] = []"
| "utf8 [u] = utf8_unit u"
| "utf8 (u # v # us) =
     (if high_surrogate u \<and> low_surrogate v
      then utf8_code_point (0x10000 + (unat u - 0xD800) * 1024 + (unat v - 0xDC00)) @ utf8 us
      else utf8_unit u @ utf8 (v # us))"

text \<open>The base64 encoding with padding that the cipher's output encoding produces.\<close>

definition base64_alphabet :: jsstring where
  "base64_alphabet = js ''ABCDEFGHIJKLMNOPQRSTUVWXYZabcdefghijklmnopqrstuvwxyz0123456789+/''"

definition base64_digit :: "nat \<Rightarrow> code_unit" where
  "base64_digit i = base64_alphabet ! (i mod 64)"

fun base64 :: "byte list \<Rightarrow> jsstring" where
  "base64 [] = []"
| "base64 [a] =
     (let n = unat a
      in [base64_digit (n div 4), base64_digit (n mod 4 * 16)] @ js ''=='')"
| "base64 [a, b] =
     (let n = unat a * 256 + unat b
      in [base64_digit (n div 1024), base64_digit (n div 16 mod 64), base64_digit (n mod 16 * 4)]
         @ js ''='')"
| "base64 (a # b # c # rest) =
     (let n = unat a * 65536 + unat b * 256 + unat c
      in [base64_digit (n div 262144), base64_digit (n div 4096 mod 64),
          base64_digit (n div 64 mod 64), base64_digit (n mod 64)]
         @ base64 rest)"

text \<open>
  The errors the SDK throws: the guard of \<open>encryptAES\<close> on the key length; the
  error of its \<open>catch\<close> block, which wraps whatever the cipher threw; the guard of
  \<open>sendContracts\<close> on the number of contracts; the error of the \<open>catch\<close> block of
  \<open>getToken\<close>; a failure of the HTTP exchange of a request.
\<close>

datatype error =
    ApiKeyTooShort
  | AesEncryptionFailed
  | TooManyContracts
  | FailedToObtainToken
  | TransportFailed

text \<open>
  \<open>encryptAES(token, apiKey)\<close>.  The block cipher behind
  \<open>crypto.createCipheriv("aes-256-cbc", key, iv)\<close> belongs to the platform and is a
  parameter: \<open>aes_256_cbc key iv plaintext\<close> is the padded ciphertext.  What the model
  keeps of \<open>createCipheriv\<close> is its check of the arguments: it throws unless the key
  has 32 bytes and the initialization vector 16 bytes.  \<open>update\<close> followed by
  \<open>final\<close>, both with output encoding base64, give the base64 text of the whole
  ciphertext.
\<close>

definition encryptAES ::
  "(byte list \<Rightarrow> byte list \<Rightarrow> byte list \<Rightarrow> byte list) \<Rightarrow> jsstring \<Rightarrow> jsstring
     \<Rightarrow> error + jsstring" where
  "encryptAES aes_256_cbc token apiKey =
     (if apiKey = [] \<or> length apiKey < 48 then Inl ApiKeyTooShort
      else
        (let key = utf8 (substring apiKey 0 32);
             iv = utf8 (substring apiKey 32 48)
         in if length key \<noteq> 32 \<or> length iv \<noteq> 16 then Inl AesEncryptionFailed
            else Inr (base64 (aes_256_cbc key iv (utf8 token)))))"

text \<open>The pattern \<open>^[A-Za-z0-9+/=]+$\<close>.\<close>

definition base64_char :: "code_unit \<Rightarrow> bool" where
  "base64_char u =
     ((0x41 \<le> u \<and> u \<le> 0x5A) \<or> (0x61 \<le> u \<and> u \<le> 0x7A) \<or> (0x30 \<le> u \<and> u \<le> 0x39)
      \<or> u = 0x2B \<or> u = 0x2F \<or> u = 0x3D)"

definition matches_base64 :: "jsstring \<Rightarrow> bool" where
  "matches_base64 s = (s \<noteq> [] \<and> list_all base64_char s)"

section \<open>Batch sending\<close>

text \<open>\<open>Array.prototype.slice(start, end)\<close> on indices that are not negative.\<close>

definition array_slice :: "'a list \<Rightarrow> nat \<Rightarrow> nat \<Rightarrow> 'a list" where
  "array_slice xs start stop =
     (let len = length xs;
          k = min start len;
          final = min stop len
      in take (final - k) (drop k xs))"

definition chunkSize :: nat where
  "chunkSize = 100"

text \<open>
  \<open>sendContracts\<close>: the guard on the number of contracts, then the records handed to
  the transport.  Obtaining the token and the HTTP exchange are external; \<open>send\<close>
  stands for both, and may fail.
\<close>

definition sendContracts ::
  "(int \<Rightarrow> jsstring) \<Rightarrow> (jsstring list \<Rightarrow> error + 'r) \<Rightarrow> RentalContract list
     \<Rightarrow> error + 'r" where
  "sendContracts beyond send contracts =
     (if length contracts > 100 then Inl TooManyContracts
      else send (map (formatContract beyond) contracts))"

text \<open>
  The loop of \<open>batchSendContracts\<close>, from index \<open>i\<close> with the results so far; an error
  of \<open>sendContracts\<close> leaves the loop, as the exception does.
\<close>

function batchSendContracts_loop ::
  "(int \<Rightarrow> jsstring) \<Rightarrow> (jsstring list \<Rightarrow> error + 'r) \<Rightarrow> RentalContract list \<Rightarrow> nat
     \<Rightarrow> 'r list \<Rightarrow> error + 'r list" where
  "batchSendContracts_loop beyond send contracts i results =
     (if i < length contracts then
        (case sendContracts beyond send (array_slice contracts i (i + chunkSize)) of
           Inl e \<Rightarrow> Inl e
         | Inr result \<Rightarrow> batchSendContracts_loop beyond send contracts (i + chunkSize) (results @ [result]))
      else Inr results)"
  by pat_completeness auto
termination
  by (relation "measure (\<lambda>(beyond, send, contracts, i, results). length contracts - i)")
     (auto simp: chunkSize_def)

declare batchSendContracts_loop.simps [simp del]

definition batchSendContracts ::
  "(int \<Rightarrow> jsstring) \<Rightarrow> (jsstring list \<Rightarrow> error + 'r) \<Rightarrow> RentalContract list
     \<Rightarrow> error + 'r list" where
  "batchSendContracts beyond send contracts = batchSendContracts_loop beyond send contracts 0 []"

text \<open>The chunks the loop cuts, in the order it cuts them.\<close>

function chunks_from :: "'a list \<Rightarrow> nat \<Rightarrow> 'a list list" where
  "chunks_from contracts i =
     (if i < length contracts
      then array_slice contracts i (i + chunkSize) # chunks_from contracts (i + chunkSize)
      else [])"
  by pat_completeness auto
termination
  by (relation "measure (\<lambda>(contracts, i). length contracts - i)") (auto simp: chunkSize_def)

declare chunks_from.simps [simp del]

section \<open>The fixtures of the test suite\<close>

text \<open>
  \<open>createTestDriver()\<close> and \<open>createTestContract()\<close> of the test suite, without
  overrides: a driver with no residence and no phone, a contract with no secondary driver.
\<close>

definition createTestDriver :: Driver where
  "createTestDriver =
     \<lparr> driver_surname = js ''Rossi'',
       driver_name = js ''Mario'',
       driver_birthDate =
         \<lparr> getDate = 15, getMonth = 5, getFullYear = 1985, getHours = 0, getMinutes = 0 \<rparr>,
       driver_birthPlace = \<lparr> location_code = 123456789, location_name = Some (js ''Roma'') \<rparr>,
       driver_citizenship = \<lparr> location_code = 100000100, location_name = Some (js ''Italia'') \<rparr>,
       driver_residencePlace = None,
       driver_residenceAddress = None,
       driver_documentType = ID_CARD,
       driver_documentNumber = js ''AB1234567'',
       driver_documentIssuePlace =
         \<lparr> location_code = 123456789, location_name = Some (js ''Roma'') \<rparr>,
       driver_licenseNumber = js ''RM12345678'',
       driver_licenseIssuePlace =
         \<lparr> location_code = 123456789, location_name = Some (js ''Roma'') \<rparr>,
       driver_phone = None \<rparr>"

definition createTestContract :: RentalContract where
  "createTestContract =
     \<lparr> contract_id = js ''CONTRACT-001'',
       createdDate =
         \<lparr> getDate = 15, getMonth = 0, getFullYear = 2024, getHours = 10, getMinutes = 30 \<rparr>,
       paymentType = CARD_PaymentType,
       checkoutDate =
         \<lparr> getDate = 15, getMonth = 0, getFullYear = 2024, getHours = 11, getMinutes = 0 \<rparr>,
       checkoutLocation =
         \<lparr> location_code = 123456789, location_name = Some (js ''Roma Fiumicino'') \<rparr>,
       checkoutAddress = js ''Via dell'' @ [0x27] @ js ''Aeroporto 1'',
       checkinDate =
         \<lparr> getDate = 20, getMonth = 0, getFullYear = 2024, getHours = 18, getMinutes = 0 \<rparr>,
       checkinLocation =
         \<lparr> location_code = 987654321, location_name = Some (js ''Milano Malpensa'') \<rparr>,
       checkinAddress = js ''Via Malpensa 2'',
       operatorId = js ''OP001'',
       agency =
         \<lparr> agency_id = js ''AGENCY001'',
           agency_name = js ''Autonoleggio Roma SRL'',
           agency_location = \<lparr> location_code = 123456789, location_name = Some (js ''Roma'') \<rparr>,
           agency_address = js ''Via Roma 100'',
           agency_phone = js ''+39 06 1234567'' \<rparr>,
       vehicle =
         \<lparr> vehicle_type = CAR,
           vehicle_brand = js ''Fiat'',
           vehicle_model = js ''500'',
           vehicle_plate = js ''AB123CD'',
           vehicle_color = Some (js ''Rosso''),
           vehicle_hasGPS = Some True,
           vehicle_hasEngineBlock = Some False \<rparr>,
       mainDriver = createTestDriver,
       secondaryDriver = None \<rparr>"

text \<open>
  When a field is as wide as the layout says: a numeric code prints in at most 9
  characters, a birth date in at most 10.
\<close>

definition code_fits :: "(int \<Rightarrow> jsstring) \<Rightarrow> Location \<Rightarrow> bool" where
  "code_fits beyond place = (length (number_to_string beyond (location_code place)) \<le> 9)"

definition driver_codes_fit :: "(int \<Rightarrow> jsstring) \<Rightarrow> Driver \<Rightarrow> bool" where
  "driver_codes_fit beyond driver =
     (code_fits beyond (driver_birthPlace driver)
      \<and> code_fits beyond (driver_citizenship driver)
      \<and> (case driver_residencePlace driver of None \<Rightarrow> True | Some place \<Rightarrow> code_fits beyond place)
      \<and> code_fits beyond (driver_documentIssuePlace driver)
      \<and> code_fits beyond (driver_licenseIssuePlace driver))"

definition driver_fits :: "(int \<Rightarrow> jsstring) \<Rightarrow> Driver \<Rightarrow> bool" where
  "driver_fits beyond driver =
     (length (formatDate beyond (driver_birthDate driver) False) \<le> 10
      \<and> driver_codes_fit beyond driver)"

text \<open>
  Bounds on the numbers themselves under which a driver fits: codes from 0 to
  999999999, and a birth date with a day from 1 to 31, a month from 0 to 11 (as
  \<open>getMonth\<close> counts) and a year from 0 to 9999.
\<close>

definition code_in_range :: "Location \<Rightarrow> bool" where
  "code_in_range place = (0 \<le> location_code place \<and> location_code place \<le> 999999999)"

definition birthDate_in_range :: "Date \<Rightarrow> bool" where
  "birthDate_in_range date =
     (1 \<le> getDate date \<and> getDate date \<le> 31
      \<and> 0 \<le> getMonth date \<and> getMonth date \<le> 11
      \<and> 0 \<le> getFullYear date \<and> getFullYear date \<le> 9999)"

definition driver_in_range :: "Driver \<Rightarrow> bool" where
  "driver_in_range driver =
     (birthDate_in_range (driver_birthDate driver)
      \<and> code_in_range (driver_birthPlace driver)
      \<and> code_in_range (driver_citizenship driver)
      \<and> (case driver_residencePlace driver of None \<Rightarrow> True | Some place \<Rightarrow> code_in_range place)
      \<and> code_in_range (driver_documentIssuePlace driver)
      \<and> code_in_range (driver_licenseIssuePlace driver))"

text \<open>The width of the residence place field of a driver block.\<close>

definition residence_width :: "(int \<Rightarrow> jsstring) \<Rightarrow> Location option \<Rightarrow> nat" where
  "residence_width beyond p =
     (case p of
        None \<Rightarrow> 9
      | Some place \<Rightarrow> max (length (number_to_string beyond (location_code place))) 9)"

text \<open>
  The numeric codes that \<open>formatDriver\<close> and \<open>formatContract\<close> pass to
  \<open>padNumber\<close>, in the order of the record.
\<close>

definition driver_codes :: "Driver \<Rightarrow> int list" where
  "driver_codes driver =
     [location_code (driver_birthPlace driver), location_code (driver_citizenship driver)]
     @ (case driver_residencePlace driver of None \<Rightarrow> [] | Some place \<Rightarrow> [location_code place])
     @ [location_code (driver_documentIssuePlace driver),
        location_code (driver_licenseIssuePlace driver)]"

definition contract_codes :: "RentalContract \<Rightarrow> int list" where
  "contract_codes contract =
     [location_code (checkoutLocation contract), location_code (checkinLocation contract),
      location_code (agency_location (agency contract))]
     @ driver_codes (mainDriver contract)
     @ (case secondaryDriver contract of None \<Rightarrow> [] | Some driver \<Rightarrow> driver_codes driver)"

text \<open>
  By how many characters a code overflows its field of 9, and the sum over the codes
  of a contract.
\<close>

definition excess :: "(int \<Rightarrow> jsstring) \<Rightarrow> int \<Rightarrow> nat" where
  "excess beyond code = length (number_to_string beyond code) - 9"

definition overflow :: "(int \<Rightarrow> jsstring) \<Rightarrow> RentalContract \<Rightarrow> nat" where
  "overflow beyond contract = sum_list (map (excess beyond) (contract_codes contract))"

text \<open>
  The same driver and the same contract with every numeric code replaced by 0, a code
  that fits its field; everything else is kept.
\<close>

definition zero_code :: "Location \<Rightarrow> Location" where
  "zero_code place = place\<lparr>location_code := 0\<rparr>"

definition zero_codes_driver :: "Driver \<Rightarrow> Driver" where
  "zero_codes_driver driver =
     driver\<lparr>driver_birthPlace := zero_code (driver_birthPlace driver),
            driver_citizenship := zero_code (driver_citizenship driver),
            driver_residencePlace := map_option zero_code (driver_residencePlace driver),
            driver_documentIssuePlace := zero_code (driver_documentIssuePlace driver),
            driver_licenseIssuePlace := zero_code (driver_licenseIssuePlace driver)\<rparr>"

definition zero_codes :: "RentalContract \<Rightarrow> RentalContract" where
  "zero_codes contract =
     contract\<lparr>checkoutLocation := zero_code (checkoutLocation contract),
              checkinLocation := zero_code (checkinLocation contract),
              agency := (agency contract)
                \<lparr>agency_location := zero_code (agency_location (agency contract))\<rparr>,
              mainDriver := zero_codes_driver (mainDriver contract),
              secondaryDriver := map_option zero_codes_driver (secondaryDriver contract)\<rparr>"

section \<open>Token cache\<close>

text \<open>
  The two private fields of \<open>CargosClient\<close> that \<open>getToken\<close> reads and writes.  An
  instant is its number of milliseconds, as in a \<open>Date\<close>.
\<close>

record ClientState =
  client_token :: "jsstring option"
  client_tokenExpiry :: "int option"

text \<open>
  The body of a token response.  \<open>expires_date\<close> is kept as the instant that
  \<open>new Date(data.expires_date)\<close> denotes, and is absent when the string is empty or
  missing, which is when \<open>if (data.expires_date)\<close> fails.  (A string that is not a
  date is outside the model.)
\<close>

record TokenResponse =
  token_type :: jsstring
  expires_date :: "int option"
  access_token :: jsstring

text \<open>
  How the request of \<open>getToken\<close> ends: with a response whose status is ok and whose
  body is a token response, or otherwise (a status that is not ok, a rejected
  \<open>fetch\<close>, a body that is not JSON), which all end in the \<open>catch\<close> block.
\<close>

datatype fetch_result = Ok TokenResponse | Failed

text \<open>
  Where one call of \<open>getToken\<close> stands: not yet entered, suspended at
  \<open>await fetch(...)\<close> with its request outstanding, returned with a token, or thrown.
\<close>

datatype call = NotStarted | AwaitingFetch | Returned jsstring | Threw error

text \<open>
  The test of the first \<open>if\<close>:
  \<open>this.token && this.tokenExpiry && new Date() < this.tokenExpiry\<close>, giving the cached
  token when it holds.  An empty string is not truthy.
\<close>

definition cached :: "ClientState \<Rightarrow> int \<Rightarrow> jsstring option" where
  "cached st now =
     (case client_token st of
        None \<Rightarrow> None
      | Some t \<Rightarrow>
          (case client_tokenExpiry st of
             None \<Rightarrow> None
           | Some expiry \<Rightarrow> if t \<noteq> [] \<and> now < expiry then Some t else None))"

text \<open>
  \<open>getToken\<close> from its entry to \<open>await fetch(...)\<close>: it returns the cached token, or
  issues the request and suspends.  Nothing is written to the client on the way.
\<close>

definition getToken_start :: "ClientState \<Rightarrow> int \<Rightarrow> call" where
  "getToken_start st now =
     (case cached st now of Some t \<Rightarrow> Returned t | None \<Rightarrow> AwaitingFetch)"

text \<open>
  \<open>getToken\<close> from the completion of its request to its end.  Between
  \<open>await fetch(...)\<close> and \<open>await response.json()\<close> it only tests
  \<open>response.ok\<close>, so the two suspensions are taken as one.  The expiry is left as
  it was when the response declares none.  Otherwise it is the declared one after
  \<open>expiry.setMinutes(expiry.getMinutes() - 5)\<close>, which works on the local civil
  time: the instant that results is the platform's and is the parameter
  \<open>five_minutes_before\<close> (300000 milliseconds earlier, where the local clock does
  not change in between).
\<close>

definition getToken_resume ::
  "(int \<Rightarrow> int) \<Rightarrow> ClientState \<Rightarrow> fetch_result \<Rightarrow> ClientState \<times> call" where
  "getToken_resume five_minutes_before st r =
     (case r of
        Failed \<Rightarrow> (st, Threw FailedToObtainToken)
      | Ok data \<Rightarrow>
          (let st1 = st\<lparr>client_token := Some (access_token data)\<rparr>;
               st2 = (case expires_date data of
                        None \<Rightarrow> st1
                      | Some expiry \<Rightarrow>
                          st1\<lparr>client_tokenExpiry := Some (five_minutes_before expiry)\<rparr>)
           in (st2, Returned (access_token data))))"

text \<open>
  Several calls on one client.  JavaScript runs each stretch of code between two
  suspensions to its end before anything else runs, so an execution is a sequence of
  events: caller \<open>i\<close> enters \<open>getToken\<close> at some instant, or the request of caller
  \<open>i\<close> completes.  An event that does not apply to the caller's position changes
  nothing.
\<close>

datatype event = Call nat int | Response nat fetch_result

fun step ::
  "(int \<Rightarrow> int) \<Rightarrow> event \<Rightarrow> ClientState \<times> call list \<Rightarrow> ClientState \<times> call list" where
  "step five_minutes_before (Call i now) (st, calls) =
     (if i < length calls \<and> calls ! i = NotStarted
      then (st, calls[i := getToken_start st now])
      else (st, calls))"
| "step five_minutes_before (Response i r) (st, calls) =
     (if i < length calls \<and> calls ! i = AwaitingFetch
      then (case getToken_resume five_minutes_before st r of (st', c) \<Rightarrow> (st', calls[i := c]))
      else (st, calls))"

definition run ::
  "(int \<Rightarrow> int) \<Rightarrow> event list \<Rightarrow> ClientState \<times> call list \<Rightarrow> ClientState \<times> call list" where
  "run five_minutes_before events cfg = foldl (\<lambda>c e. step five_minutes_before e c) cfg events"

text \<open>The number of token requests that are outstanding.\<close>

definition outstanding :: "ClientState \<times> call list \<Rightarrow> nat" where
  "outstanding cfg = length (filter (\<lambda>c. c = AwaitingFetch) (snd cfg))"

section \<open>Properties of the string primitives\<close>

lemma length_js: "length (js s) = length s"
  by (simp add: js_def)

lemma js_unit_eq_iff:
  "(of_nat (of_char c) :: code_unit) = of_nat (of_char d) \<longleftrightarrow> c = d"
proof -
  have "of_char c < (2::nat) ^ 16" "of_char d < (2::nat) ^ 16"
    by (rule less_le_trans [OF nat_of_char_less_256], simp)+
  then have "take_bit 16 (of_char c :: nat) = of_char c" "take_bit 16 (of_char d :: nat) = of_char d"
    by (simp_all add: take_bit_nat_eq_self)
  then show ?thesis
    by (simp add: word_of_nat_eq_iff)
qed

lemma js_eq_iff: "js s = js t \<longleftrightarrow> s = t"
proof -
  have "inj (\<lambda>c. of_nat (of_char c) :: code_unit)"
    by (rule injI) (simp add: js_unit_eq_iff)
  then show ?thesis
    by (simp add: js_def)
qed

lemma js_space: "js '' '' = [0x20]"
  by (simp add: js_def)

lemma js_zero: "js ''0'' = [0x30]"
  by (simp add: js_def)

lemma string_filler_single: "string_filler [c] n = replicate n c"
proof -
  have "concat (replicate n [c]) = replicate n c"
    by (induction n) simp_all
  then show ?thesis
    by (simp add: string_filler_def)
qed

lemma padEnd_single:
  "padEnd s w [c] = s @ replicate (nat w - length s) c"
  by (auto simp: padEnd_def Let_def string_filler_single nat_diff_distrib' max_def)

lemma padStart_single:
  "padStart s w [c] = replicate (nat w - length s) c @ s"
  by (auto simp: padStart_def Let_def string_filler_single nat_diff_distrib' max_def)

lemma length_padEnd_single: "length (padEnd s w [c]) = max (length s) (nat w)"
  by (simp add: padEnd_single max_def)

lemma length_padStart_single: "length (padStart s w [c]) = max (length s) (nat w)"
  by (simp add: padStart_single max_def)

lemma substring_prefix: "substring s 0 w = take (nat w) s"
  by (auto simp: substring_def Let_def min_def max_def)

lemma padString_single:
  "padString s w [c] =
     (if int (length s) > w then take (nat w) s else s @ replicate (nat w - length s) c)"
  by (simp add: padString_def substring_prefix padEnd_single)

lemma length_padString_single:
  "0 \<le> w \<Longrightarrow> length (padString s w [c]) = nat w"
  by (auto simp: padString_single)

section \<open>Widths of the composed fields\<close>

lemma length_padNumber: "length (padNumber beyond v w) = max (length (number_to_string beyond v)) (nat w)"
  by (simp add: padNumber_def js_zero length_padStart_single)

lemma length_padString_space: "0 \<le> w \<Longrightarrow> length (padString s w (js '' '')) = nat w"
  by (simp add: js_space length_padString_single)

lemma length_padEnd_space: "length (padEnd s w (js '' '')) = max (length s) (nat w)"
  by (simp add: js_space length_padEnd_single)

lemma length_DocumentType_value: "length (DocumentType_value t) = 1"
  by (cases t) (simp_all add: length_js)

lemma length_VehicleType_value: "length (VehicleType_value t) = 1"
  by (cases t) (simp_all add: length_js)

lemma length_PaymentType_value: "length (PaymentType_value t) = 1"
  by (cases t) (simp_all add: length_js)

lemma length_flag: "length (flag b) = 1"
  by (simp add: flag_def length_js)

lemma length_repeat_space: "length (repeat (js '' '') n) = n"
  by (induction n) (simp_all add: repeat_def length_js)

lemma length_formatDriver:
  "length (formatDriver beyond d) =
     295 + max (length (formatDate beyond (driver_birthDate d) False)) 10
     + max (length (number_to_string beyond (location_code (driver_birthPlace d)))) 9
     + max (length (number_to_string beyond (location_code (driver_citizenship d)))) 9
     + residence_width beyond (driver_residencePlace d)
     + max (length (number_to_string beyond (location_code (driver_documentIssuePlace d)))) 9
     + max (length (number_to_string beyond (location_code (driver_licenseIssuePlace d)))) 9"
  by (simp add: formatDriver_def length_padString_space length_padEnd_space length_padNumber
      length_js residence_width_def split: option.split)

lemma formatDriver_350: "length (formatDriver beyond d) = 350 \<longleftrightarrow> driver_fits beyond d"
  by (auto simp add: length_formatDriver driver_fits_def driver_codes_fit_def code_fits_def
      residence_width_def max_def split: option.splits)

lemma formatDriver_ge: "350 \<le> length (formatDriver beyond d)"
  by (auto simp add: length_formatDriver residence_width_def split: option.splits)

lemma length_formatContract:
  "length (formatContract beyond c) =
     889 + max (length (formatDate beyond (createdDate c) True)) 16
     + max (length (formatDate beyond (checkoutDate c) True)) 16
     + max (length (number_to_string beyond (location_code (checkoutLocation c)))) 9
     + max (length (formatDate beyond (checkinDate c) True)) 16
     + max (length (number_to_string beyond (location_code (checkinLocation c)))) 9
     + max (length (number_to_string beyond (location_code (agency_location (agency c))))) 9
     + length (formatDriver beyond (mainDriver c))
     + (case secondaryDriver c of None \<Rightarrow> 190 | Some d \<Rightarrow> length (formatDriver beyond d))"
  by (simp add: formatContract_def length_padString_space length_padEnd_space length_padNumber
      length_PaymentType_value length_VehicleType_value length_flag length_repeat_space
      split: option.split)

lemma digits_nonempty: "digits n \<noteq> []"
  by (simp add: digits.simps [of n])

lemma length_digits_le: "0 < k \<Longrightarrow> length (digits n) \<le> k \<longleftrightarrow> n < 10 ^ k"
proof (induction k arbitrary: n)
  case 0
  then show ?case by simp
next
  case (Suc k)
  show ?case
  proof (cases "n < 10")
    case True
    then have "n < 10 ^ Suc k"
      by (metis One_nat_def Suc_le_eq \<open>0 < Suc k\<close> less_le_trans one_le_numeral power_increasing power_one_right)
    with True show ?thesis
      by (simp add: digits.simps [of n])
  next
    case False
    show ?thesis
    proof (cases "k = 0")
      case True
      with False show ?thesis by (simp add: digits.simps [of n] digits_nonempty)
    next
      case k: False
      have "length (digits n) = Suc (length (digits (n div 10)))"
        using False by (simp add: digits.simps [of n])
      moreover have "length (digits (n div 10)) \<le> k \<longleftrightarrow> n div 10 < 10 ^ k"
        using Suc.IH [of "n div 10"] k by simp
      moreover have "n div 10 < 10 ^ k \<longleftrightarrow> n < 10 ^ Suc k"
        by (simp add: less_mult_imp_div_less div_less_iff_less_mult mult.commute)
      ultimately show ?thesis by simp
    qed
  qed
qed

lemma number_to_string_safe:
  "\<bar>n\<bar> \<le> MAX_SAFE_INTEGER \<Longrightarrow>
     number_to_string beyond n = (if n < 0 then js ''-'' @ digits (nat (- n)) else digits (nat n))"
  by (simp add: number_to_string_def)

lemma code_fits_iff:
  assumes "\<bar>location_code p\<bar> \<le> MAX_SAFE_INTEGER"
  shows "code_fits beyond p \<longleftrightarrow> - (10 ^ 8) < location_code p \<and> location_code p < 10 ^ 9"
proof (cases "location_code p < 0")
  case True
  have "length (digits (nat (- location_code p))) \<le> 8 \<longleftrightarrow> nat (- location_code p) < 10 ^ 8"
    by (rule length_digits_le) simp
  with True show ?thesis
    by (auto simp: code_fits_def number_to_string_safe [OF assms] length_js)
next
  case False
  have "length (digits (nat (location_code p))) \<le> 9 \<longleftrightarrow> nat (location_code p) < 10 ^ 9"
    by (rule length_digits_le) simp
  with False show ?thesis
    by (auto simp: code_fits_def number_to_string_safe [OF assms])
qed

section \<open>Field codec: text and numeric codes\<close>

text \<open>
  C3.  \<open>padString\<close> with a single fill character: a value of at most \<open>w\<close> characters
  is followed by the fill character up to exactly \<open>w\<close> characters; a longer value is
  cut to its first \<open>w\<close> characters, and no error arises.  The width counts characters
  of the string (the UTF-16 code units that \<open>.length\<close> counts), not bytes: the
  four characters J, o, s, U+00E9 padded to 6 are 6 characters and 7 bytes of UTF-8.
  \<open>padString("test", 10)\<close> is \<open>"test      "\<close> and \<open>padString("hello world", 5)\<close>
  is \<open>"hello"\<close>.
\<close>

theorem padString_pads_or_truncates:
  "padString s w [c] =
     (if int (length s) \<le> w then s @ replicate (nat w - length s) c else take (nat w) s)
   \<and> (0 \<le> w \<longrightarrow> int (length (padString s w [c])) = w)
   \<and> length (padString [0x4A, 0x6F, 0x73, 0xE9] 6 (js '' '')) = 6
   \<and> length (utf8 (padString [0x4A, 0x6F, 0x73, 0xE9] 6 (js '' ''))) = 7
   \<and> padString (js ''test'') 10 (js '' '') = js ''test      ''
   \<and> padString (js ''hello world'') 5 (js '' '') = js ''hello''"
proof -
  have general: "padString s w [c] =
      (if int (length s) \<le> w then s @ replicate (nat w - length s) c else take (nat w) s)"
    by (simp add: padString_single)
  have width: "0 \<le> w \<longrightarrow> int (length (padString s w [c])) = w"
    by (simp add: length_padString_single)
  have accent: "padString [0x4A, 0x6F, 0x73, 0xE9] 6 (js '' '') = [0x4A, 0x6F, 0x73, 0xE9, 0x20, 0x20]"
    by (simp add: js_space padString_single eval_nat_numeral)
  have bytes: "length (utf8 [0x4A, 0x6F, 0x73, 0xE9, 0x20, 0x20]) = 7"
    by (simp add: utf8_unit_def utf8_code_point_def high_surrogate_def low_surrogate_def)
  have test: "padString (js ''test'') 10 (js '' '') = js ''test      ''"
    by (simp add: js_space padString_single eval_nat_numeral) (simp add: js_def)
  have hello: "padString (js ''hello world'') 5 (js '' '') = js ''hello''"
    by (simp add: js_space padString_single length_js) (simp add: js_def)
  from general width accent bytes test hello show ?thesis
    by simp
qed

theorem padString_pads_or_truncates_witness:
  "(0::int) \<le> 5 \<and> padString (js ''42'') 5 (js ''0'') = js ''42000''
   \<and> length (padString (js ''42'') 5 (js ''0'')) = 5"
proof -
  have "int (length (js ''42'')) \<le> 5"
    by (simp add: length_js)
  with padString_pads_or_truncates [of "js ''42''" 5 "0x30"]
  have "padString (js ''42'') 5 [0x30] = js ''42'' @ replicate (nat 5 - length (js ''42'')) 0x30"
    and "int (length (padString (js ''42'') 5 [0x30])) = 5"
    by simp_all
  then show ?thesis
    by (simp add: js_zero length_js eval_nat_numeral) (simp add: js_def)
qed

text \<open>
  C4.  \<open>padNumber\<close> puts \<open>0\<close> characters in front of the string of the number, up
  to \<open>w\<close> characters, whatever the number and however the platform prints it.  A
  string longer than \<open>w\<close> comes back as it is, not truncated, so the result is longer
  than \<open>w\<close>.  \<open>padNumber(42, 5)\<close> is \<open>"00042"\<close> and \<open>padNumber(123456, 5)\<close> is
  \<open>"123456"\<close>; and where \<open>String(1e21)\<close> is \<open>"1e+21"\<close>, \<open>padNumber(1e21, 9)\<close> is
  \<open>"00001e+21"\<close>.
\<close>

theorem padNumber_pads_never_truncates:
  "padNumber beyond v w
     = replicate (nat w - length (number_to_string beyond v)) 0x30 @ number_to_string beyond v
   \<and> (int (length (number_to_string beyond v)) \<le> w \<longrightarrow> int (length (padNumber beyond v w)) = w)
   \<and> (w < int (length (number_to_string beyond v)) \<longrightarrow>
        padNumber beyond v w = number_to_string beyond v
        \<and> w < int (length (padNumber beyond v w)))
   \<and> padNumber beyond 42 5 = js ''00042''
   \<and> padNumber beyond 123456 5 = js ''123456''
   \<and> (beyond (10 ^ 21) = js ''1e+21'' \<longrightarrow> padNumber beyond (10 ^ 21) 9 = js ''00001e+21'')"
proof -
  have general: "padNumber beyond v w =
      replicate (nat w - length (number_to_string beyond v)) 0x30 @ number_to_string beyond v"
    by (simp add: padNumber_def js_zero padStart_single)
  have fits: "int (length (number_to_string beyond v)) \<le> w \<longrightarrow>
      int (length (padNumber beyond v w)) = w"
    by (auto simp: general)
  have overflows: "w < int (length (number_to_string beyond v)) \<longrightarrow>
      padNumber beyond v w = number_to_string beyond v \<and> w < int (length (padNumber beyond v w))"
    by (auto simp: general)
  have "number_to_string beyond 42 = [0x34, 0x32]"
    by (simp add: number_to_string_def MAX_SAFE_INTEGER_def digits.simps)
  then have small: "padNumber beyond 42 5 = js ''00042''"
    by (simp add: padNumber_def js_zero padStart_single eval_nat_numeral) (simp add: js_def)
  have "number_to_string beyond 123456 = js ''123456''"
    by (simp add: number_to_string_def MAX_SAFE_INTEGER_def digits.simps) (simp add: js_def)
  then have large: "padNumber beyond 123456 5 = js ''123456''"
    by (simp add: padNumber_def js_zero padStart_single length_js)
  have exponent: "padNumber beyond (10 ^ 21) 9 = js ''00001e+21''"
    if "beyond (10 ^ 21) = js ''1e+21''"
  proof -
    from that have "number_to_string beyond (10 ^ 21) = js ''1e+21''"
      by (simp add: number_to_string_def MAX_SAFE_INTEGER_def)
    then show ?thesis
      by (simp add: padNumber_def js_zero padStart_single length_js eval_nat_numeral)
         (simp add: js_def)
  qed
  from general fits overflows small large exponent show ?thesis
    by blast
qed

theorem padNumber_pads_never_truncates_witness:
  "(3::int) < int (length (number_to_string (\<lambda>n. js ''1e+21'') 12345))
   \<and> padNumber (\<lambda>n. js ''1e+21'') 12345 3 = js ''12345''
   \<and> (3::int) < int (length (padNumber (\<lambda>n. js ''1e+21'') 12345 3))
   \<and> int (length (number_to_string (\<lambda>n. js ''1e+21'') 0)) \<le> 3
   \<and> padNumber (\<lambda>n. js ''1e+21'') 0 3 = js ''000''
   \<and> int (length (padNumber (\<lambda>n. js ''1e+21'') 0 3)) = 3
   \<and> padNumber (\<lambda>n. js ''1e+21'') (10 ^ 21) 9 = js ''00001e+21''"
proof -
  let ?beyond = "\<lambda>n :: int. js ''1e+21''"
  have big: "number_to_string ?beyond 12345 = js ''12345''"
    by (simp add: number_to_string_def MAX_SAFE_INTEGER_def digits.simps) (simp add: js_def)
  have zero: "number_to_string ?beyond 0 = js ''0''"
    by (simp add: number_to_string_def MAX_SAFE_INTEGER_def digits.simps) (simp add: js_def)
  have over: "(3::int) < int (length (number_to_string ?beyond 12345))"
    by (simp add: big length_js)
  have fits: "int (length (number_to_string ?beyond 0)) \<le> 3"
    by (simp add: zero length_js)
  from over padNumber_pads_never_truncates [of ?beyond 12345 3]
  have a: "padNumber ?beyond 12345 3 = number_to_string ?beyond 12345
      \<and> (3::int) < int (length (padNumber ?beyond 12345 3))"
    by blast
  from padNumber_pads_never_truncates [of ?beyond 0 3]
  have b: "padNumber ?beyond 0 3
      = replicate (nat 3 - length (number_to_string ?beyond 0)) 0x30 @ number_to_string ?beyond 0"
    by blast
  have c: "padNumber ?beyond 0 3 = js ''000''"
    by (simp add: b zero length_js eval_nat_numeral) (simp add: js_def)
  from fits padNumber_pads_never_truncates [of ?beyond 0 3]
  have d: "int (length (padNumber ?beyond 0 3)) = 3"
    by blast
  have "?beyond (10 ^ 21) = js ''1e+21''"
    by simp
  with padNumber_pads_never_truncates [of ?beyond 0 0]
  have e: "padNumber ?beyond (10 ^ 21) 9 = js ''00001e+21''"
    by blast
  from a c d e over fits show ?thesis
    by (simp only: big simp_thms)
qed

section \<open>Record composer\<close>

lemma createTestDriver_fits: "driver_fits beyond createTestDriver"
  by (simp add: driver_fits_def driver_codes_fit_def code_fits_def createTestDriver_def
      number_to_string_def MAX_SAFE_INTEGER_def digits.simps formatDate_def
      length_padStart_single js_zero length_js)

lemma length_formatDriver_createTestDriver: "length (formatDriver beyond createTestDriver) = 350"
  by (simp add: formatDriver_350 createTestDriver_fits)

lemma length_formatDate_createTestContract:
  "length (formatDate beyond (createdDate createTestContract) True) = 16"
  "length (formatDate beyond (checkoutDate createTestContract) True) = 16"
  "length (formatDate beyond (checkinDate createTestContract) True) = 16"
  by (simp_all add: createTestContract_def number_to_string_def MAX_SAFE_INTEGER_def
      digits.simps formatDate_def length_padStart_single js_zero length_js)

lemma length_codes_createTestContract:
  "length (number_to_string beyond (location_code (checkoutLocation createTestContract))) = 9"
  "length (number_to_string beyond (location_code (checkinLocation createTestContract))) = 9"
  "length (number_to_string beyond (location_code (agency_location (agency createTestContract)))) = 9"
  by (simp_all add: createTestContract_def number_to_string_def MAX_SAFE_INTEGER_def
      digits.simps)

lemma number_to_string_ten_digits: "number_to_string beyond 1234567890 = js ''1234567890''"
  by (simp add: number_to_string_def MAX_SAFE_INTEGER_def digits.simps) (simp add: js_def)

text \<open>
  C1.  The record of the test suite's contract has 1504 characters without a secondary
  driver and 1664 with one: the filler for an absent secondary driver is 190 characters,
  a driver block is 350.
\<close>

theorem formatContract_length_varies:
  "length (formatContract beyond createTestContract) = 1504
   \<and> length (formatContract beyond (createTestContract\<lparr>secondaryDriver := Some createTestDriver\<rparr>)) = 1664
   \<and> length (repeat (js '' '') 190) = 190
   \<and> length (formatDriver beyond createTestDriver) = 350"
proof -
  have main: "mainDriver createTestContract = createTestDriver"
    and none: "secondaryDriver createTestContract = None"
    by (simp_all add: createTestContract_def)
  have absent: "length (formatContract beyond createTestContract) = 1504"
    by (simp add: length_formatContract length_formatDate_createTestContract
        length_codes_createTestContract main none length_formatDriver_createTestDriver)
  have present:
    "length (formatContract beyond (createTestContract\<lparr>secondaryDriver := Some createTestDriver\<rparr>)) = 1664"
    by (simp add: length_formatContract length_formatDate_createTestContract
        length_codes_createTestContract main length_formatDriver_createTestDriver)
  from absent present show ?thesis
    by (simp add: length_repeat_space length_formatDriver_createTestDriver)
qed

lemma formatContract_secondaryDriver_gap:
  "length (formatContract beyond (c\<lparr>secondaryDriver := None\<rparr>)) + 160
     \<le> length (formatContract beyond (c\<lparr>secondaryDriver := Some d\<rparr>))"
  using formatDriver_ge [of beyond d] by (simp add: length_formatContract)

lemma length_number_to_string_le:
  assumes "0 \<le> n" and "n < 10 ^ k" and "0 < k" and "n \<le> MAX_SAFE_INTEGER"
  shows "length (number_to_string beyond n) \<le> k"
proof -
  from assms have "nat n < 10 ^ k"
    by (simp add: nat_less_iff)
  with \<open>0 < k\<close> have "length (digits (nat n)) \<le> k"
    by (simp add: length_digits_le)
  with assms show ?thesis
    by (simp add: number_to_string_def)
qed

lemma code_in_range_fits: "code_in_range place \<Longrightarrow> code_fits beyond place"
  unfolding code_in_range_def code_fits_def
  by (rule length_number_to_string_le) (simp_all add: MAX_SAFE_INTEGER_def)

lemma birthDate_in_range_fits:
  assumes "birthDate_in_range date"
  shows "length (formatDate beyond date False) \<le> 10"
proof -
  from assms have "length (number_to_string beyond (getDate date)) \<le> 2"
    by (intro length_number_to_string_le)
       (simp_all add: birthDate_in_range_def MAX_SAFE_INTEGER_def)
  moreover from assms have "length (number_to_string beyond (getMonth date + 1)) \<le> 2"
    by (intro length_number_to_string_le)
       (simp_all add: birthDate_in_range_def MAX_SAFE_INTEGER_def)
  moreover from assms have "length (number_to_string beyond (getFullYear date)) \<le> 4"
    by (intro length_number_to_string_le)
       (simp_all add: birthDate_in_range_def MAX_SAFE_INTEGER_def)
  ultimately show ?thesis
    by (simp add: formatDate_def Let_def length_padStart_single js_zero length_js)
qed

lemma driver_in_range_fits: "driver_in_range d \<Longrightarrow> driver_fits beyond d"
  by (auto simp: driver_in_range_def driver_fits_def driver_codes_fit_def
      birthDate_in_range_fits code_in_range_fits split: option.splits)

text \<open>
  C2, as stated, fails: the test suite's driver gives a block of 350 characters, and
  the same driver with a residence place whose code has ten digits gives 351.  The
  codes are safe integers, so the rendering of numbers beyond them is never consulted;
  the empty string stands in its place here.
\<close>

theorem formatDriver_length_counterexample:
  "length (formatDriver (\<lambda>n. []) createTestDriver) = 350
   \<and> length (formatDriver (\<lambda>n. []) (createTestDriver
        \<lparr>driver_residencePlace := Some \<lparr>location_code = 1234567890, location_name = None\<rparr>\<rparr>)) = 351"
proof -
  let ?beyond = "\<lambda>n :: int. [] :: jsstring"
  have "length (number_to_string ?beyond 1234567890) = 10"
    by (simp add: number_to_string_ten_digits length_js)
  moreover have "length (formatDate ?beyond (driver_birthDate createTestDriver) False) = 10"
    by (simp add: createTestDriver_def number_to_string_def MAX_SAFE_INTEGER_def digits.simps
        formatDate_def length_padStart_single js_zero length_js)
  moreover have
    "length (number_to_string ?beyond (location_code (driver_birthPlace createTestDriver))) = 9"
    "length (number_to_string ?beyond (location_code (driver_citizenship createTestDriver))) = 9"
    "length (number_to_string ?beyond (location_code (driver_documentIssuePlace createTestDriver))) = 9"
    "length (number_to_string ?beyond (location_code (driver_licenseIssuePlace createTestDriver))) = 9"
    by (simp_all add: createTestDriver_def number_to_string_def MAX_SAFE_INTEGER_def
        digits.simps)
  ultimately have "length (formatDriver ?beyond (createTestDriver
        \<lparr>driver_residencePlace := Some \<lparr>location_code = 1234567890, location_name = None\<rparr>\<rparr>)) = 351"
    by (simp add: length_formatDriver residence_width_def)
  with length_formatDriver_createTestDriver [of ?beyond] show ?thesis
    by simp
qed

text \<open>
  C2, amended.  For every driver whose location codes each print in at most 9
  characters and whose birth date prints in at most 10, the block has exactly 350
  characters, whichever of residence place, residence address and phone are present;
  for every other driver the block is longer than 350 characters.  The first holds in
  particular of every driver whose codes lie between 0 and 999999999 and whose birth
  date has a day from 1 to 31, a month from 0 to 11 and a year from 0 to 9999.
\<close>

theorem formatDriver_fixed_width:
  "(driver_fits beyond d \<longrightarrow>
      length (formatDriver beyond d) = 350
      \<and> length (formatDriver beyond (d\<lparr>driver_residencePlace := None,
            driver_residenceAddress := address, driver_phone := phone\<rparr>)) = 350)
   \<and> (\<not> driver_fits beyond d \<longrightarrow> 350 < length (formatDriver beyond d))
   \<and> (driver_in_range d \<longrightarrow> driver_fits beyond d \<and> length (formatDriver beyond d) = 350)"
proof -
  have "driver_fits beyond (d\<lparr>driver_residencePlace := None, driver_residenceAddress := address,
      driver_phone := phone\<rparr>)" if "driver_fits beyond d"
    using that by (simp add: driver_fits_def driver_codes_fit_def)
  moreover have "350 < length (formatDriver beyond d)" if "\<not> driver_fits beyond d"
    using that formatDriver_ge [of beyond d] formatDriver_350 [of beyond d] by linarith
  moreover have "driver_fits beyond d" if "driver_in_range d"
    using that by (rule driver_in_range_fits)
  ultimately show ?thesis
    by (simp add: formatDriver_350)
qed

theorem formatDriver_fixed_width_witness:
  "driver_in_range (createTestDriver
      \<lparr>driver_residencePlace := Some \<lparr>location_code = 111222333, location_name = Some (js ''Milano'')\<rparr>,
       driver_residenceAddress := Some (js ''Via Milano 50'')\<rparr>)
   \<and> driver_fits (\<lambda>n. []) (createTestDriver
      \<lparr>driver_residencePlace := Some \<lparr>location_code = 111222333, location_name = Some (js ''Milano'')\<rparr>,
       driver_residenceAddress := Some (js ''Via Milano 50'')\<rparr>)
   \<and> length (formatDriver (\<lambda>n. []) (createTestDriver
      \<lparr>driver_residencePlace := Some \<lparr>location_code = 111222333, location_name = Some (js ''Milano'')\<rparr>,
       driver_residenceAddress := Some (js ''Via Milano 50'')\<rparr>)) = 350
   \<and> \<not> driver_fits (\<lambda>n. []) (createTestDriver
      \<lparr>driver_residencePlace := Some \<lparr>location_code = 1234567890, location_name = None\<rparr>\<rparr>)
   \<and> 350 < length (formatDriver (\<lambda>n. []) (createTestDriver
      \<lparr>driver_residencePlace := Some \<lparr>location_code = 1234567890, location_name = None\<rparr>\<rparr>))"
proof -
  let ?beyond = "\<lambda>n :: int. [] :: jsstring"
  let ?milano = "createTestDriver
      \<lparr>driver_residencePlace := Some \<lparr>location_code = 111222333, location_name = Some (js ''Milano'')\<rparr>,
       driver_residenceAddress := Some (js ''Via Milano 50'')\<rparr>"
  let ?over = "createTestDriver
      \<lparr>driver_residencePlace := Some \<lparr>location_code = 1234567890, location_name = None\<rparr>\<rparr>"
  have range: "driver_in_range ?milano"
    by (simp add: driver_in_range_def birthDate_in_range_def code_in_range_def
        createTestDriver_def)
  have "length (number_to_string ?beyond 1234567890) = 10"
    by (simp add: number_to_string_ten_digits length_js)
  then have over: "\<not> driver_fits ?beyond ?over"
    by (simp add: driver_fits_def driver_codes_fit_def code_fits_def)
  from range formatDriver_fixed_width [of ?beyond ?milano]
  have "driver_fits ?beyond ?milano \<and> length (formatDriver ?beyond ?milano) = 350"
    by blast
  moreover from over formatDriver_fixed_width [of ?beyond ?over]
  have "350 < length (formatDriver ?beyond ?over)"
    by blast
  ultimately show ?thesis
    using range over by blast
qed

lemma sublist_in_right: "sublist xs zs \<Longrightarrow> sublist xs (ys @ zs)"
  unfolding sublist_def by (metis append_assoc)

lemma sublist_in_left: "sublist xs ys \<Longrightarrow> sublist xs (ys @ zs)"
  unfolding sublist_def by (metis append_assoc)

lemma formatDriver_contains:
  assumes "code \<in> set (driver_codes d)"
  shows "sublist (padNumber beyond code 9) (formatDriver beyond d)"
proof -
  from assms consider
      "code = location_code (driver_birthPlace d)"
    | "code = location_code (driver_citizenship d)"
    | place where "driver_residencePlace d = Some place" "code = location_code place"
    | "code = location_code (driver_documentIssuePlace d)"
    | "code = location_code (driver_licenseIssuePlace d)"
    by (cases "driver_residencePlace d") (auto simp: driver_codes_def)
  then show ?thesis
    by cases (simp_all add: formatDriver_def sublist_in_right)
qed

lemma formatContract_contains:
  assumes "code \<in> set (contract_codes c)"
  shows "sublist (padNumber beyond code 9) (formatContract beyond c)"
proof -
  from assms consider
      "code = location_code (checkoutLocation c)"
    | "code = location_code (checkinLocation c)"
    | "code = location_code (agency_location (agency c))"
    | "code \<in> set (driver_codes (mainDriver c))"
    | d where "secondaryDriver c = Some d" "code \<in> set (driver_codes d)"
    by (cases "secondaryDriver c") (auto simp: contract_codes_def)
  then show ?thesis
  proof cases
    case 4
    then have "sublist (padNumber beyond code 9) (formatDriver beyond (mainDriver c))"
      by (rule formatDriver_contains)
    then show ?thesis
      by (simp add: formatContract_def sublist_in_right sublist_in_left)
  next
    case 5
    then have "sublist (padNumber beyond code 9) (formatDriver beyond d)"
      by (intro formatDriver_contains)
    with 5 show ?thesis
      by (simp add: formatContract_def sublist_in_right)
  qed (simp_all add: formatContract_def sublist_in_right)
qed

lemma number_to_string_zero: "number_to_string beyond 0 = [0x30]"
  by (simp add: number_to_string_def MAX_SAFE_INTEGER_def digits.simps)

lemma max_excess: "max (length (number_to_string beyond code)) 9 = 9 + excess beyond code"
  by (simp add: excess_def)

lemma length_formatDriver_excess:
  "length (formatDriver beyond d)
     = length (formatDriver beyond (zero_codes_driver d))
       + sum_list (map (excess beyond) (driver_codes d))"
  by (cases "driver_residencePlace d")
     (simp_all add: length_formatDriver residence_width_def zero_codes_driver_def zero_code_def
        driver_codes_def number_to_string_zero max_excess)

lemma length_formatContract_excess:
  "length (formatContract beyond c)
     = length (formatContract beyond (zero_codes c)) + overflow beyond c"
proof (cases "secondaryDriver c")
  case None
  then show ?thesis
    using length_formatDriver_excess [of beyond "mainDriver c"]
    by (simp add: length_formatContract zero_codes_def zero_code_def contract_codes_def
        overflow_def number_to_string_zero max_excess)
next
  case (Some d)
  then show ?thesis
    using length_formatDriver_excess [of beyond "mainDriver c"]
      length_formatDriver_excess [of beyond d]
    by (simp add: length_formatContract zero_codes_def zero_code_def contract_codes_def
        overflow_def number_to_string_zero max_excess)
qed

lemma excess_le_overflow:
  "code \<in> set (contract_codes c) \<Longrightarrow> excess beyond code \<le> overflow beyond c"
  unfolding overflow_def by (simp add: member_le_sum_list)

lemma checkoutLocation_field:
  assumes "length (formatDate beyond (createdDate c) True) = 16"
    and "length (formatDate beyond (checkoutDate c) True) = 16"
  shows "take (length (padNumber beyond (location_code (checkoutLocation c)) 9))
           (drop 83 (formatContract beyond c))
         = padNumber beyond (location_code (checkoutLocation c)) 9"
  using assms
  by (simp add: formatContract_def length_padString_space length_padEnd_space
      length_PaymentType_value)

text \<open>
  C5, as stated, fails: the test suite's contract with a ten-digit checkout location
  code is composed all the same.  The code prints in 10 characters; the record has 1505
  characters, one more than with the nine-digit code of the test suite, and the ten
  digits stand in the nine-character field at offset 83.  (The code is a safe integer;
  the empty string stands for the rendering of numbers beyond them.)
\<close>

theorem formatContract_overflow_counterexample:
  "length (number_to_string (\<lambda>n. []) 1234567890) = 10
   \<and> length (formatContract (\<lambda>n. []) (createTestContract
        \<lparr>checkoutLocation := \<lparr>location_code = 1234567890, location_name = None\<rparr>\<rparr>)) = 1505
   \<and> take 10 (drop 83 (formatContract (\<lambda>n. []) (createTestContract
        \<lparr>checkoutLocation := \<lparr>location_code = 1234567890, location_name = None\<rparr>\<rparr>)))
       = js ''1234567890''"
proof -
  let ?beyond = "\<lambda>n :: int. [] :: jsstring"
  let ?c = "createTestContract
      \<lparr>checkoutLocation := \<lparr>location_code = 1234567890, location_name = None\<rparr>\<rparr>"
  note code = number_to_string_ten_digits [of ?beyond]
  then have pad: "padNumber ?beyond 1234567890 9 = js ''1234567890''"
    by (simp add: padNumber_def js_zero padStart_single length_js)
  have overflows: "length (number_to_string ?beyond 1234567890) = 10"
    by (simp add: code length_js)
  have main: "mainDriver ?c = createTestDriver" and none: "secondaryDriver ?c = None"
    by (simp_all add: createTestContract_def)
  have len: "length (formatContract ?beyond ?c) = 1505"
    using length_formatDate_createTestContract [of ?beyond]
      length_codes_createTestContract [of ?beyond]
    by (simp add: length_formatContract main none length_formatDriver_createTestDriver
        code length_js)
  have p: "padNumber ?beyond (location_code (checkoutLocation ?c)) 9 = js ''1234567890''"
    by (simp add: pad)
  have l: "length (padNumber ?beyond (location_code (checkoutLocation ?c)) 9) = 10"
    by (simp add: pad length_js)
  have "take (length (padNumber ?beyond (location_code (checkoutLocation ?c)) 9))
          (drop 83 (formatContract ?beyond ?c))
        = padNumber ?beyond (location_code (checkoutLocation ?c)) 9"
    by (rule checkoutLocation_field)
       (simp_all add: length_formatDate_createTestContract)
  then have "take 10 (drop 83 (formatContract ?beyond ?c))
        = padNumber ?beyond (location_code (checkoutLocation ?c)) 9"
    by (simp only: l)
  then have field: "take 10 (drop 83 (formatContract ?beyond ?c)) = js ''1234567890''"
    by (simp only: p)
  from overflows len field show ?thesis
    by simp
qed

text \<open>
  C5, amended.  \<open>formatContract\<close> has no error path: it gives a record for every
  contract.  Every numeric code of the contract and of its drivers stands in the record
  as \<open>padNumber\<close> leaves it, and a code that prints in more than 9 characters stands
  there in full, not truncated.  The record is longer than the record of the same
  contract with codes that fit (every code replaced by 0) by exactly the characters by
  which its codes exceed their 9, so strictly longer as soon as one code overflows: a
  composed record can hold overflowed numeric codes, and only its length shows it.
\<close>

theorem formatContract_overflow_written_in_full:
  "(code \<in> set (contract_codes c) \<longrightarrow>
      sublist (padNumber beyond code 9) (formatContract beyond c))
   \<and> (9 < length (number_to_string beyond code) \<longrightarrow>
        padNumber beyond code 9 = number_to_string beyond code)
   \<and> (code \<in> set (contract_codes c) \<and> 9 < length (number_to_string beyond code) \<longrightarrow>
        sublist (number_to_string beyond code) (formatContract beyond c)
        \<and> length (formatContract beyond (zero_codes c)) < length (formatContract beyond c))
   \<and> length (formatContract beyond c)
       = length (formatContract beyond (zero_codes c)) + overflow beyond c"
proof -
  have full: "padNumber beyond code 9 = number_to_string beyond code"
    if "9 < length (number_to_string beyond code)"
    using that by (simp add: padNumber_def js_zero padStart_single)
  have longer: "length (formatContract beyond (zero_codes c)) < length (formatContract beyond c)"
    if "code \<in> set (contract_codes c)" and "9 < length (number_to_string beyond code)"
  proof -
    from that(2) have "0 < excess beyond code"
      by (simp add: excess_def)
    with excess_le_overflow [OF that(1), of beyond] have "0 < overflow beyond c"
      by simp
    then show ?thesis
      by (simp add: length_formatContract_excess [of beyond c])
  qed
  show ?thesis
  proof (intro conjI impI)
    assume "code \<in> set (contract_codes c)"
    then show "sublist (padNumber beyond code 9) (formatContract beyond c)"
      by (rule formatContract_contains)
  next
    assume "9 < length (number_to_string beyond code)"
    then show "padNumber beyond code 9 = number_to_string beyond code"
      by (rule full)
  next
    assume a: "code \<in> set (contract_codes c) \<and> 9 < length (number_to_string beyond code)"
    then have "sublist (padNumber beyond code 9) (formatContract beyond c)"
      by (intro formatContract_contains) simp
    with a full show "sublist (number_to_string beyond code) (formatContract beyond c)"
      by simp
    from a longer
    show "length (formatContract beyond (zero_codes c)) < length (formatContract beyond c)"
      by simp
  next
    show "length (formatContract beyond c)
        = length (formatContract beyond (zero_codes c)) + overflow beyond c"
      by (rule length_formatContract_excess)
  qed
qed

theorem formatContract_overflow_written_in_full_witness:
  "1234567890 \<in> set (contract_codes (createTestContract
      \<lparr>checkoutLocation := \<lparr>location_code = 1234567890, location_name = None\<rparr>\<rparr>))
   \<and> 9 < length (number_to_string (\<lambda>n. []) 1234567890)
   \<and> padNumber (\<lambda>n. []) 1234567890 9 = js ''1234567890''
   \<and> sublist (js ''1234567890'') (formatContract (\<lambda>n. []) (createTestContract
        \<lparr>checkoutLocation := \<lparr>location_code = 1234567890, location_name = None\<rparr>\<rparr>))
   \<and> length (formatContract (\<lambda>n. []) (zero_codes (createTestContract
        \<lparr>checkoutLocation := \<lparr>location_code = 1234567890, location_name = None\<rparr>\<rparr>)))
       < length (formatContract (\<lambda>n. []) (createTestContract
        \<lparr>checkoutLocation := \<lparr>location_code = 1234567890, location_name = None\<rparr>\<rparr>))"
proof -
  let ?beyond = "\<lambda>n :: int. [] :: jsstring"
  let ?c = "createTestContract
      \<lparr>checkoutLocation := \<lparr>location_code = 1234567890, location_name = None\<rparr>\<rparr>"
  note code = number_to_string_ten_digits [of ?beyond]
  have member: "1234567890 \<in> set (contract_codes ?c)"
    by (simp add: contract_codes_def)
  have over: "9 < length (number_to_string ?beyond 1234567890)"
    by (simp add: code length_js)
  from member over formatContract_overflow_written_in_full [of 1234567890 ?c ?beyond]
  have "padNumber ?beyond 1234567890 9 = number_to_string ?beyond 1234567890"
    and "sublist (number_to_string ?beyond 1234567890) (formatContract ?beyond ?c)"
    and "length (formatContract ?beyond (zero_codes ?c)) < length (formatContract ?beyond ?c)"
    by blast+
  with member over show ?thesis
    by (simp only: code simp_thms)
qed

text \<open>
  C10.  The record does not tell \<open>VehicleType.CAR\<close> from \<open>VehicleType.OTHER\<close>, nor
  \<open>DocumentType.PASSPORT\<close> from \<open>DocumentType.DRIVERS_LICENSE\<close>: two contracts that
  differ only in the vehicle type, or only in the document type of the main or of the
  secondary driver, between these members have the same record.
\<close>

theorem formatContract_not_injective:
  "c\<lparr>vehicle := (vehicle c)\<lparr>vehicle_type := CAR\<rparr>\<rparr>
     \<noteq> c\<lparr>vehicle := (vehicle c)\<lparr>vehicle_type := OTHER_VehicleType\<rparr>\<rparr>
   \<and> formatContract beyond (c\<lparr>vehicle := (vehicle c)\<lparr>vehicle_type := CAR\<rparr>\<rparr>)
     = formatContract beyond (c\<lparr>vehicle := (vehicle c)\<lparr>vehicle_type := OTHER_VehicleType\<rparr>\<rparr>)
   \<and> c\<lparr>mainDriver := (mainDriver c)\<lparr>driver_documentType := PASSPORT\<rparr>\<rparr>
     \<noteq> c\<lparr>mainDriver := (mainDriver c)\<lparr>driver_documentType := DRIVERS_LICENSE\<rparr>\<rparr>
   \<and> formatContract beyond (c\<lparr>mainDriver := (mainDriver c)\<lparr>driver_documentType := PASSPORT\<rparr>\<rparr>)
     = formatContract beyond (c\<lparr>mainDriver := (mainDriver c)\<lparr>driver_documentType := DRIVERS_LICENSE\<rparr>\<rparr>)
   \<and> c\<lparr>secondaryDriver := Some (d\<lparr>driver_documentType := PASSPORT\<rparr>)\<rparr>
     \<noteq> c\<lparr>secondaryDriver := Some (d\<lparr>driver_documentType := DRIVERS_LICENSE\<rparr>)\<rparr>
   \<and> formatContract beyond (c\<lparr>secondaryDriver := Some (d\<lparr>driver_documentType := PASSPORT\<rparr>)\<rparr>)
     = formatContract beyond (c\<lparr>secondaryDriver := Some (d\<lparr>driver_documentType := DRIVERS_LICENSE\<rparr>)\<rparr>)"
proof -
  have "vehicle_type (vehicle (c\<lparr>vehicle := (vehicle c)\<lparr>vehicle_type := CAR\<rparr>\<rparr>))
      \<noteq> vehicle_type (vehicle (c\<lparr>vehicle := (vehicle c)\<lparr>vehicle_type := OTHER_VehicleType\<rparr>\<rparr>))"
    by simp
  then have v: "c\<lparr>vehicle := (vehicle c)\<lparr>vehicle_type := CAR\<rparr>\<rparr>
      \<noteq> c\<lparr>vehicle := (vehicle c)\<lparr>vehicle_type := OTHER_VehicleType\<rparr>\<rparr>"
    by metis
  have "driver_documentType (mainDriver (c\<lparr>mainDriver := (mainDriver c)\<lparr>driver_documentType := PASSPORT\<rparr>\<rparr>))
      \<noteq> driver_documentType (mainDriver (c\<lparr>mainDriver := (mainDriver c)\<lparr>driver_documentType := DRIVERS_LICENSE\<rparr>\<rparr>))"
    by simp
  then have m: "c\<lparr>mainDriver := (mainDriver c)\<lparr>driver_documentType := PASSPORT\<rparr>\<rparr>
      \<noteq> c\<lparr>mainDriver := (mainDriver c)\<lparr>driver_documentType := DRIVERS_LICENSE\<rparr>\<rparr>"
    by metis
  have "map_option driver_documentType (secondaryDriver (c\<lparr>secondaryDriver := Some (d\<lparr>driver_documentType := PASSPORT\<rparr>)\<rparr>))
      \<noteq> map_option driver_documentType (secondaryDriver (c\<lparr>secondaryDriver := Some (d\<lparr>driver_documentType := DRIVERS_LICENSE\<rparr>)\<rparr>))"
    by simp
  then have s: "c\<lparr>secondaryDriver := Some (d\<lparr>driver_documentType := PASSPORT\<rparr>)\<rparr>
      \<noteq> c\<lparr>secondaryDriver := Some (d\<lparr>driver_documentType := DRIVERS_LICENSE\<rparr>)\<rparr>"
    by metis
  have records:
    "formatContract beyond (c\<lparr>vehicle := (vehicle c)\<lparr>vehicle_type := CAR\<rparr>\<rparr>)
       = formatContract beyond (c\<lparr>vehicle := (vehicle c)\<lparr>vehicle_type := OTHER_VehicleType\<rparr>\<rparr>)"
    "formatContract beyond (c\<lparr>mainDriver := (mainDriver c)\<lparr>driver_documentType := PASSPORT\<rparr>\<rparr>)
       = formatContract beyond (c\<lparr>mainDriver := (mainDriver c)\<lparr>driver_documentType := DRIVERS_LICENSE\<rparr>\<rparr>)"
    "formatContract beyond (c\<lparr>secondaryDriver := Some (d\<lparr>driver_documentType := PASSPORT\<rparr>)\<rparr>)
       = formatContract beyond (c\<lparr>secondaryDriver := Some (d\<lparr>driver_documentType := DRIVERS_LICENSE\<rparr>)\<rparr>)"
    by (simp_all add: formatContract_def formatDriver_def)
  from v m s records show ?thesis
    by blast
qed

section \<open>Validation\<close>

lemma push_if: "(if b then xs @ [m] else xs) = xs @ (if b then [m] else [])"
  by simp

lemma filter_Cons_if: "filter P (x # xs) = (if P x then [x] else []) @ filter P xs"
  by simp

lemma map_if_single: "map f (if b then [x] else []) = (if b then [f x] else [])"
  by simp

lemma checks_are_rules:
  "(contract_id c = [] \<or> length (contract_id c) > 50) \<longleftrightarrow> \<not> satisfies c ContractIdBounds"
  "(agency_id (agency c) = [] \<or> length (agency_id (agency c)) > 30)
     \<longleftrightarrow> \<not> satisfies c AgencyIdBounds"
  "length (checkoutAddress c) < 3 \<longleftrightarrow> \<not> satisfies c CheckoutAddressMin"
  "length (checkinAddress c) < 3 \<longleftrightarrow> \<not> satisfies c CheckinAddressMin"
  "length (driver_documentNumber (mainDriver c)) < 5 \<longleftrightarrow> \<not> satisfies c DocumentNumberMin"
  "length (driver_licenseNumber (mainDriver c)) < 5 \<longleftrightarrow> \<not> satisfies c LicenseNumberMin"
  "length (vehicle_plate (vehicle c)) < 3 \<longleftrightarrow> \<not> satisfies c VehiclePlateMin"
  "(case secondaryDriver c of
      None \<Rightarrow> False
    | Some driver \<Rightarrow> driver_surname driver = [] \<or> driver_name driver = []
        \<or> driver_documentNumber driver = [])
     \<longleftrightarrow> \<not> satisfies c SecondaryDriverComplete"
  by (auto simp: Suc_le_eq split: option.splits)

lemma isValidContractData_filter: "isValidContractData c = map violation (filter (\<lambda>r. \<not> satisfies c r) rule_table)"
proof -
  have "isValidContractData c =
      (if \<not> satisfies c ContractIdBounds then [violation ContractIdBounds] else [])
      @ (if \<not> satisfies c AgencyIdBounds then [violation AgencyIdBounds] else [])
      @ (if \<not> satisfies c CheckoutAddressMin then [violation CheckoutAddressMin] else [])
      @ (if \<not> satisfies c CheckinAddressMin then [violation CheckinAddressMin] else [])
      @ (if \<not> satisfies c DocumentNumberMin then [violation DocumentNumberMin] else [])
      @ (if \<not> satisfies c LicenseNumberMin then [violation LicenseNumberMin] else [])
      @ (if \<not> satisfies c VehiclePlateMin then [violation VehiclePlateMin] else [])
      @ (if \<not> satisfies c SecondaryDriverComplete then [violation SecondaryDriverComplete] else [])"
    unfolding isValidContractData_def Let_def checks_are_rules push_if violation.simps
    by (simp only: append_Nil append_assoc)
  also have "\<dots> = map violation (filter (\<lambda>r. \<not> satisfies c r) rule_table)"
    unfolding rule_table_def filter_Cons_if
    by (simp only: map_append map_if_single filter.simps(1) list.map(1) append_Nil2)
  finally show ?thesis .
qed

lemma inj_violation: "inj violation"
proof (rule injI)
  fix r r' assume "violation r = violation r'"
  then show "r = r'"
    by (cases r; cases r') (simp_all add: js_eq_iff)
qed

text \<open>
  C6.  \<open>isValidContractData\<close> is a total function of the contract, and its result is
  the list of the messages of exactly the violated rules of the table, in the table's
  order, one message per violated rule: every rule is checked, whatever the other rules
  give.  So the number of messages is the number of violated rules; the list is empty
  exactly when the contract satisfies all rules; and a contract with an empty id gets
  the message about the bounds of the contract id.
\<close>

theorem isValidContractData_rule_table:
  "isValidContractData c = map violation (filter (\<lambda>r. \<not> satisfies c r) rule_table)
   \<and> isValidContractData c = validate_spec c
   \<and> distinct (isValidContractData c)
   \<and> length (isValidContractData c) = card {r. \<not> satisfies c r}
   \<and> (\<forall>r. violation r \<in> set (isValidContractData c) \<longleftrightarrow> \<not> satisfies c r)
   \<and> (isValidContractData c = [] \<longleftrightarrow> (\<forall>r. satisfies c r))
   \<and> (contract_id c = [] \<longrightarrow>
        js ''Contract ID must be between 1 and 50 characters'' \<in> set (isValidContractData c))"
proof -
  have all_rules: "set rule_table = UNIV"
  proof -
    have "r \<in> set rule_table" for r
      by (cases r) (simp_all add: rule_table_def)
    then show ?thesis by blast
  qed
  have distinct_table: "distinct rule_table"
    by (simp add: rule_table_def)
  note eq = isValidContractData_filter [of c]
  have "inj_on violation (set (filter (\<lambda>r. \<not> satisfies c r) rule_table))"
    using inj_violation by (rule inj_on_subset) simp
  then have dist: "distinct (isValidContractData c)"
    unfolding eq using distinct_table by (simp add: distinct_map)
  have "distinct (filter (\<lambda>r. \<not> satisfies c r) rule_table)"
    using distinct_table by simp
  then have "card (set (filter (\<lambda>r. \<not> satisfies c r) rule_table))
      = length (filter (\<lambda>r. \<not> satisfies c r) rule_table)"
    by (rule distinct_card)
  then have count: "length (isValidContractData c) = card {r. \<not> satisfies c r}"
    unfolding eq by (simp add: all_rules)
  have member: "violation r \<in> set (isValidContractData c) \<longleftrightarrow> \<not> satisfies c r" for r
    unfolding eq by (simp add: inj_image_mem_iff [OF inj_violation] all_rules)
  have empty: "isValidContractData c = [] \<longleftrightarrow> (\<forall>r. satisfies c r)"
    unfolding eq by (simp add: filter_empty_conv all_rules)
  have "violation ContractIdBounds \<in> set (isValidContractData c)" if "contract_id c = []"
    using that by (simp only: member) simp
  then have id_empty: "contract_id c = [] \<longrightarrow>
      js ''Contract ID must be between 1 and 50 characters'' \<in> set (isValidContractData c)"
    by (simp only: violation.simps) blast
  show ?thesis
  proof (intro conjI)
    show "isValidContractData c = map violation (filter (\<lambda>r. \<not> satisfies c r) rule_table)"
      by (rule eq)
    show "isValidContractData c = validate_spec c"
      unfolding validate_spec_def by (rule eq)
    show "distinct (isValidContractData c)"
      by (rule dist)
    show "length (isValidContractData c) = card {r. \<not> satisfies c r}"
      by (rule count)
    show "\<forall>r. violation r \<in> set (isValidContractData c) \<longleftrightarrow> \<not> satisfies c r"
      using member by blast
    show "isValidContractData c = [] \<longleftrightarrow> (\<forall>r. satisfies c r)"
      by (rule empty)
    show "contract_id c = [] \<longrightarrow>
      js ''Contract ID must be between 1 and 50 characters'' \<in> set (isValidContractData c)"
      by (rule id_empty)
  qed
qed

theorem isValidContractData_rule_table_witness:
  "contract_id (createTestContract\<lparr>contract_id := []\<rparr>) = []
   \<and> isValidContractData (createTestContract\<lparr>contract_id := []\<rparr>)
       = [js ''Contract ID must be between 1 and 50 characters'']
   \<and> (\<forall>r. satisfies createTestContract r)
   \<and> isValidContractData createTestContract = []"
proof -
  have valid: "satisfies createTestContract r" for r
    by (cases r)
       (simp_all add: createTestContract_def createTestDriver_def length_js)
  have "\<not> satisfies (createTestContract\<lparr>contract_id := []\<rparr>) r \<longleftrightarrow> r = ContractIdBounds" for r
    using valid [of r] by (cases r) simp_all
  then have "filter (\<lambda>r. \<not> satisfies (createTestContract\<lparr>contract_id := []\<rparr>) r) rule_table
      = [ContractIdBounds]"
    by (simp add: rule_table_def)
  with isValidContractData_rule_table [of "createTestContract\<lparr>contract_id := []\<rparr>"]
  have "isValidContractData (createTestContract\<lparr>contract_id := []\<rparr>)
      = [js ''Contract ID must be between 1 and 50 characters'']"
    by simp
  moreover from valid isValidContractData_rule_table [of createTestContract]
  have "isValidContractData createTestContract = []"
    by blast
  ultimately show ?thesis
    using valid by simp
qed

section \<open>Batch sending\<close>

lemma array_slice_take_drop: "i \<le> length xs \<Longrightarrow> array_slice xs i (i + n) = take n (drop i xs)"
  by (auto simp: array_slice_def Let_def min_def)

lemma chunks_from_done: "length xs \<le> i \<Longrightarrow> chunks_from xs i = []"
  by (simp add: chunks_from.simps [of xs i])

lemma chunks_from_step:
  "i < length xs \<Longrightarrow>
     chunks_from xs i = take chunkSize (drop i xs) # chunks_from xs (i + chunkSize)"
  by (simp add: chunks_from.simps [of xs i] array_slice_take_drop)

lemma concat_chunks_from: "concat (chunks_from xs i) = drop i xs"
proof (induction xs i rule: chunks_from.induct)
  case (1 xs i)
  show ?case
  proof (cases "i < length xs")
    case True
    have "take chunkSize (drop i xs) @ drop (i + chunkSize) xs = drop i xs"
      by (metis append_take_drop_id drop_drop add.commute)
    with True "1.IH" show ?thesis
      by (simp add: chunks_from_step)
  next
    case False
    then show ?thesis by (simp add: chunks_from_done)
  qed
qed

lemma lengths_chunks_from:
  "map length (chunks_from xs i) =
     replicate ((length xs - i) div chunkSize) chunkSize
     @ (if (length xs - i) mod chunkSize = 0 then [] else [(length xs - i) mod chunkSize])"
proof (induction xs i rule: chunks_from.induct)
  case (1 xs i)
  let ?n = "length xs - i"
  show ?case
  proof (cases "i < length xs")
    case False
    then show ?thesis by (simp add: chunks_from_done)
  next
    case True
    show ?thesis
    proof (cases "chunkSize \<le> ?n")
      case full: True
      have "length xs - (i + chunkSize) = ?n - chunkSize"
        by simp
      moreover have "?n div chunkSize = Suc ((?n - chunkSize) div chunkSize)"
        using full by (simp add: chunkSize_def le_div_geq)
      moreover have "?n mod chunkSize = (?n - chunkSize) mod chunkSize"
        using full by (simp add: le_mod_geq)
      ultimately show ?thesis
        using True full "1.IH" by (simp add: chunks_from_step)
    next
      case short: False
      then have "chunks_from xs (i + chunkSize) = []"
        by (simp add: chunks_from_done)
      moreover have "?n div chunkSize = 0" "?n mod chunkSize = ?n"
        using short by simp_all
      ultimately show ?thesis
        using True short by (simp add: chunks_from_step)
    qed
  qed
qed

lemma chunk_bounds:
  "chunk \<in> set (chunks_from xs i) \<Longrightarrow> chunk \<noteq> [] \<and> length chunk \<le> chunkSize"
proof (induction xs i rule: chunks_from.induct)
  case (1 xs i)
  show ?case
  proof (cases "i < length xs")
    case True
    with "1.prems" have "chunk = take chunkSize (drop i xs) \<or> chunk \<in> set (chunks_from xs (i + chunkSize))"
      by (simp add: chunks_from_step)
    then show ?thesis
      using True "1.IH" by (auto simp: chunkSize_def)
  next
    case False
    with "1.prems" show ?thesis by (simp add: chunks_from_done)
  qed
qed

lemma butlast_chunks_full:
  "chunk \<in> set (butlast (chunks_from xs i)) \<Longrightarrow> length chunk = chunkSize"
proof (induction xs i rule: chunks_from.induct)
  case (1 xs i)
  show ?case
  proof (cases "i < length xs")
    case True
    show ?thesis
    proof (cases "i + chunkSize < length xs")
      case more: True
      then have "chunks_from xs (i + chunkSize) \<noteq> []"
        by (simp add: chunks_from_step)
      with "1.prems" True
      have "chunk = take chunkSize (drop i xs)
          \<or> chunk \<in> set (butlast (chunks_from xs (i + chunkSize)))"
        by (simp add: chunks_from_step)
      then show ?thesis
        using True more "1.IH" by auto
    next
      case False
      then have "chunks_from xs (i + chunkSize) = []"
        by (simp add: chunks_from_done)
      with "1.prems" True show ?thesis
        by (simp add: chunks_from_step)
    qed
  next
    case False
    with "1.prems" show ?thesis by (simp add: chunks_from_done)
  qed
qed

lemma batchSendContracts_loop_chunks:
  "batchSendContracts_loop beyond (\<lambda>records. Inr (f records)) contracts i results =
     Inr (results @ map (\<lambda>chunk. f (map (formatContract beyond) chunk)) (chunks_from contracts i))"
proof (induction contracts i arbitrary: results rule: chunks_from.induct)
  case (1 contracts i)
  show ?case
  proof (cases "i < length contracts")
    case True
    then have "length (array_slice contracts i (i + chunkSize)) \<le> 100"
      by (simp add: array_slice_take_drop chunkSize_def)
    then have "sendContracts beyond (\<lambda>records. Inr (f records)) (array_slice contracts i (i + chunkSize))
        = Inr (f (map (formatContract beyond) (array_slice contracts i (i + chunkSize))))"
      by (simp add: sendContracts_def)
    then show ?thesis
      using True "1.IH" [OF True]
      by (simp add: batchSendContracts_loop.simps [of _ _ contracts i] chunks_from.simps [of contracts i])
  next
    case False
    then show ?thesis
      by (simp add: batchSendContracts_loop.simps [of _ _ contracts i] chunks_from_done)
  qed
qed

text \<open>
  C8.  The chunks that \<open>batchSendContracts\<close> cuts and sends, one after the other and
  in this order when every request succeeds, partition the list of contracts: appended
  in order they give the list back, none is empty or longer than 100, and all but the
  last have exactly 100 elements.  A list of 250 elements gives chunks of 100, 100 and
  50 elements.
\<close>

theorem batchSendContracts_chunks:
  "batchSendContracts beyond (\<lambda>records. Inr (f records)) contracts
     = Inr (map (\<lambda>chunk. f (map (formatContract beyond) chunk)) (chunks_from contracts 0))
   \<and> concat (chunks_from contracts 0) = contracts
   \<and> (\<forall>chunk \<in> set (chunks_from contracts 0). chunk \<noteq> [] \<and> length chunk \<le> 100)
   \<and> (\<forall>chunk \<in> set (butlast (chunks_from contracts 0)). length chunk = 100)
   \<and> (length contracts = 250 \<longrightarrow> map length (chunks_from contracts 0) = [100, 100, 50])
   \<and> map length (chunks_from [1 ..< 251] 0) = [100, 100, 50]
   \<and> concat (chunks_from [1 ..< 251] 0) = [1 ..< 251]"
proof (intro conjI)
  show "batchSendContracts beyond (\<lambda>records. Inr (f records)) contracts
      = Inr (map (\<lambda>chunk. f (map (formatContract beyond) chunk)) (chunks_from contracts 0))"
    by (simp add: batchSendContracts_def batchSendContracts_loop_chunks)
  show "concat (chunks_from contracts 0) = contracts"
    by (simp add: concat_chunks_from)
  show "\<forall>chunk \<in> set (chunks_from contracts 0). chunk \<noteq> [] \<and> length chunk \<le> 100"
    using chunk_bounds [of _ contracts 0] by (simp add: chunkSize_def)
  show "\<forall>chunk \<in> set (butlast (chunks_from contracts 0)). length chunk = 100"
    using butlast_chunks_full [of _ contracts 0] by (simp add: chunkSize_def)
  show "length contracts = 250 \<longrightarrow> map length (chunks_from contracts 0) = [100, 100, 50]"
    by (simp add: lengths_chunks_from chunkSize_def numeral_2_eq_2)
  show "map length (chunks_from [1 ..< 251] 0) = [100, 100, 50]"
    by (simp add: lengths_chunks_from chunkSize_def numeral_2_eq_2)
  show "concat (chunks_from [1 ..< 251] 0) = [1 ..< 251]"
    by (simp only: concat_chunks_from drop_0)
qed

theorem batchSendContracts_chunks_witness:
  "length (replicate 250 createTestContract) = 250
   \<and> map length (chunks_from (replicate 250 createTestContract) 0) = [100, 100, 50]
   \<and> replicate 100 createTestContract \<in> set (chunks_from (replicate 250 createTestContract) 0)
   \<and> replicate 100 createTestContract \<noteq> [] \<and> length (replicate 100 createTestContract) \<le> 100"
proof -
  let ?cs = "replicate 250 createTestContract"
  have "chunks_from ?cs 0 = replicate 100 createTestContract # chunks_from ?cs 100"
    by (subst chunks_from_step) (simp_all add: chunkSize_def)
  then have member: "replicate 100 createTestContract \<in> set (chunks_from ?cs 0)"
    by simp
  have len: "length ?cs = 250"
    by simp
  from batchSendContracts_chunks [where f = "\<lambda>records. ()" and contracts = ?cs]
  have "length ?cs = 250 \<longrightarrow> map length (chunks_from ?cs 0) = [100, 100, 50]"
    and "\<forall>chunk \<in> set (chunks_from ?cs 0). chunk \<noteq> [] \<and> length chunk \<le> 100"
    by blast+
  with len member show ?thesis
    by blast
qed

section \<open>Token encryption\<close>

lemma ascii_not_surrogate:
  assumes "u < 0x80"
  shows "\<not> high_surrogate u" and "\<not> low_surrogate u"
proof -
  from assms have small: "unat u < 128"
    by (simp add: word_less_nat_alt)
  show "\<not> high_surrogate u"
  proof
    assume "high_surrogate u"
    then have "55296 \<le> unat u"
      by (simp add: high_surrogate_def word_le_nat_alt)
    with small show False by simp
  qed
  show "\<not> low_surrogate u"
  proof
    assume "low_surrogate u"
    then have "56320 \<le> unat u"
      by (simp add: low_surrogate_def word_le_nat_alt)
    with small show False by simp
  qed
qed

lemma ascii_unit: "u < 0x80 \<Longrightarrow> utf8_unit u = [of_nat (unat u)]"
proof -
  assume a: "u < 0x80"
  then have "unat u < 128"
    by (simp add: word_less_nat_alt)
  with ascii_not_surrogate [OF a] show ?thesis
    by (simp add: utf8_unit_def utf8_code_point_def)
qed

lemma utf8_ascii: "\<forall>u \<in> set s. u < 0x80 \<Longrightarrow> utf8 s = map (\<lambda>u. of_nat (unat u)) s"
  by (induction s rule: utf8.induct) (simp_all add: ascii_unit ascii_not_surrogate)

lemma length_utf8_ascii: "\<forall>u \<in> set s. u < 0x80 \<Longrightarrow> length (utf8 s) = length s"
  by (simp add: utf8_ascii)

lemma substring_key: "48 \<le> length apiKey \<Longrightarrow> substring apiKey 0 32 = take 32 apiKey"
  by (simp add: substring_prefix)

lemma substring_iv: "48 \<le> length apiKey \<Longrightarrow> substring apiKey 32 48 = take 16 (drop 32 apiKey)"
  by (simp add: substring_def Let_def min_def max_def)

lemma base64_alphabet_chars: "list_all base64_char base64_alphabet"
  by (simp add: base64_alphabet_def js_def base64_char_def)

lemma length_base64_alphabet: "length base64_alphabet = 64"
  by (simp add: base64_alphabet_def length_js)

lemma base64_digit_char: "base64_char (base64_digit i)"
  using base64_alphabet_chars
  by (simp add: base64_digit_def list_all_length length_base64_alphabet)

lemma base64_pad_char: "base64_char 0x3D"
  by (simp add: base64_char_def)

lemma base64_chars: "list_all base64_char (base64 bs)"
  by (induction bs rule: base64.induct)
     (simp_all add: Let_def base64_digit_char js_def base64_pad_char)

lemma base64_nonempty: "bs \<noteq> [] \<Longrightarrow> base64 bs \<noteq> []"
  by (induction bs rule: base64.induct) (simp_all add: Let_def)

lemma matches_base64_base64: "bs \<noteq> [] \<Longrightarrow> matches_base64 (base64 bs)"
  by (simp add: matches_base64_def base64_chars base64_nonempty)

lemma utf8_pair:
  "high_surrogate u \<and> low_surrogate v \<Longrightarrow>
     length (utf8 (u # v # us)) = 4 + length (utf8 us)"
  by (simp add: utf8_code_point_def)

lemma utf8_no_pair:
  "\<not> (high_surrogate u \<and> low_surrogate v) \<Longrightarrow>
     utf8 (u # v # us) = utf8_unit u @ utf8 (v # us)"
  by auto

lemma length_utf8_code_point: "0 < length (utf8_code_point cp)"
  by (simp add: utf8_code_point_def)

lemma length_utf8_unit: "0 < length (utf8_unit u)"
  unfolding utf8_unit_def using length_utf8_code_point by (cases "high_surrogate u \<or> low_surrogate u") simp_all

lemma length_utf8_unit_one: "length (utf8_unit u) = 1 \<Longrightarrow> u < 0x80"
proof (rule ccontr)
  assume one: "length (utf8_unit u) = 1" and "\<not> u < 0x80"
  then have "\<not> unat u < 128"
    by (simp add: word_less_nat_alt)
  then have "length (utf8_unit u) \<noteq> 1"
    by (simp add: utf8_unit_def utf8_code_point_def)
  with one show False by simp
qed

lemma length_utf8_ge: "length s \<le> length (utf8 s)"
proof (induction s rule: utf8.induct)
  case 1
  show ?case by simp
next
  case (2 u)
  show ?case using length_utf8_unit [of u] by (simp add: Suc_le_eq)
next
  case (3 u v us)
  show ?case
  proof (cases "high_surrogate u \<and> low_surrogate v")
    case True
    then have "length (utf8 (u # v # us)) = 4 + length (utf8 us)"
      by (rule utf8_pair)
    with True "3.IH" show ?thesis by simp
  next
    case False
    then have "length (utf8 (u # v # us)) = length (utf8_unit u) + length (utf8 (v # us))"
      by (simp only: utf8_no_pair [OF False] length_append)
    moreover have "1 \<le> length (utf8_unit u)"
      using length_utf8_unit [of u] by (simp add: Suc_le_eq)
    moreover have "length (v # us) \<le> length (utf8 (v # us))"
      using False "3.IH" by simp
    ultimately show ?thesis by simp
  qed
qed

lemma length_utf8_eq: "length (utf8 s) = length s \<Longrightarrow> \<forall>u \<in> set s. u < 0x80"
proof (induction s rule: utf8.induct)
  case 1
  show ?case by simp
next
  case (2 u)
  then have "length (utf8_unit u) = 1" by simp
  then show ?case using length_utf8_unit_one [of u] by simp
next
  case (3 u v us)
  show ?case
  proof (cases "high_surrogate u \<and> low_surrogate v")
    case True
    then have "length (utf8 (u # v # us)) = 4 + length (utf8 us)"
      by (rule utf8_pair)
    with "3.prems" length_utf8_ge [of us] show ?thesis by simp
  next
    case False
    then have "length (utf8 (u # v # us)) = length (utf8_unit u) + length (utf8 (v # us))"
      by (simp only: utf8_no_pair [OF False] length_append)
    moreover have "1 \<le> length (utf8_unit u)"
      using length_utf8_unit [of u] by (simp add: Suc_le_eq)
    moreover note "3.prems" length_utf8_ge [of "v # us"]
    ultimately have "length (utf8_unit u) = 1" and "length (utf8 (v # us)) = length (v # us)"
      by simp_all
    with False "3.IH" length_utf8_unit_one [of u] show ?thesis
      by simp
  qed
qed

lemma length_utf8_iff: "length (utf8 s) = length s \<longleftrightarrow> (\<forall>u \<in> set s. u < 0x80)"
  using length_utf8_eq [of s] length_utf8_ascii [of s] by blast

lemma key_iv_ascii:
  assumes "48 \<le> length apiKey"
  shows "(\<forall>u \<in> set (take 48 apiKey). u < 0x80) \<longleftrightarrow>
           length (utf8 (take 32 apiKey)) = 32 \<and> length (utf8 (take 16 (drop 32 apiKey))) = 16"
proof -
  have "take 48 apiKey = take 32 apiKey @ take 16 (drop 32 apiKey)"
    by (simp add: take_add [of 32 16 apiKey, simplified])
  moreover have "length (take 32 apiKey) = 32" "length (take 16 (drop 32 apiKey)) = 16"
    using assms by simp_all
  ultimately show ?thesis
    using length_utf8_iff [of "take 32 apiKey"] length_utf8_iff [of "take 16 (drop 32 apiKey)"]
    by auto
qed

lemma encryptAES_short: "length apiKey < 48 \<Longrightarrow> encryptAES cipher token apiKey = Inl ApiKeyTooShort"
  by (simp add: encryptAES_def)

lemma encryptAES_long:
  "48 \<le> length apiKey \<Longrightarrow>
     encryptAES cipher token apiKey =
       (if \<forall>u \<in> set (take 48 apiKey). u < 0x80
        then Inr (base64 (cipher (utf8 (take 32 apiKey)) (utf8 (take 16 (drop 32 apiKey)))
               (utf8 token)))
        else Inl AesEncryptionFailed)"
proof -
  assume long: "48 \<le> length apiKey"
  then have "apiKey \<noteq> []" "\<not> length apiKey < 48"
    by auto
  with long show ?thesis
    by (simp add: encryptAES_def Let_def substring_key substring_iv key_iv_ascii)
qed

text \<open>The encoders agree with the known base64 text of \<open>test-token\<close>.\<close>

lemma base64_test_token: "base64 (utf8 (js ''test-token'')) = js ''dGVzdC10b2tlbg==''"
proof -
  have "\<forall>u \<in> set (js ''test-token''). u < 0x80"
    by (simp add: js_def)
  then have "utf8 (js ''test-token'') = [0x74, 0x65, 0x73, 0x74, 0x2D, 0x74, 0x6F, 0x6B, 0x65, 0x6E]"
    by (simp only: utf8_ascii) (simp add: js_def)
  then show ?thesis
    by (simp add: base64_digit_def base64_alphabet_def Let_def) (simp add: js_def)
qed

text \<open>
  C7, as stated, fails: a key of 48 characters U+00E9 (e with acute accent) has the required
  length, but its first 32 characters are 64 bytes of UTF-8, which
  \<open>createCipheriv\<close> refuses as a key; \<open>encryptAES\<close> throws "AES encryption failed".
  The cipher is never reached; the identity stands in its place here.
\<close>

theorem encryptAES_48_characters_counterexample:
  "length (replicate 48 (0xE9 :: code_unit)) = 48
   \<and> encryptAES (\<lambda>key iv plaintext. plaintext) (js ''test-token'') (replicate 48 0xE9)
       = Inl AesEncryptionFailed"
proof -
  have "(0xE9 :: code_unit) \<in> set (take 48 (replicate 48 0xE9))"
    by simp
  moreover have "\<not> (0xE9 :: code_unit) < 0x80"
    by simp
  ultimately have "\<not> (\<forall>u \<in> set (take 48 (replicate 48 (0xE9 :: code_unit))). u < 0x80)"
    by blast
  then show ?thesis
    by (simp only: encryptAES_long [of "replicate 48 0xE9"] length_replicate if_False
        order_refl simp_thms)
qed

text \<open>
  C7, amended.  With key material of fewer than 48 characters (47, say)
  \<open>encryptAES\<close> fails with its key-length error, for every token.  With key material
  of 48 characters or more whose first 48 characters are ASCII (one byte each in UTF-8)
  it succeeds and returns the base64 text of the ciphertext of the token under the
  first 32 characters as key and the next 16 as initialization vector, which are 32 and
  16 bytes; the text matches \<open>^[A-Za-z0-9+/=]+$\<close> as soon as the ciphertext is not
  empty, as it is under PKCS7 padding.  With 48 characters or more and a character
  beyond ASCII among the first 48, it fails with "AES encryption failed".
\<close>

theorem encryptAES_key_material:
  "(length apiKey < 48 \<longrightarrow> encryptAES cipher token apiKey = Inl ApiKeyTooShort)
   \<and> (48 \<le> length apiKey \<and> (\<forall>u \<in> set (take 48 apiKey). u < 0x80) \<longrightarrow>
        encryptAES cipher token apiKey
          = Inr (base64 (cipher (utf8 (take 32 apiKey)) (utf8 (take 16 (drop 32 apiKey)))
                  (utf8 token)))
        \<and> length (utf8 (take 32 apiKey)) = 32
        \<and> length (utf8 (take 16 (drop 32 apiKey))) = 16
        \<and> (cipher (utf8 (take 32 apiKey)) (utf8 (take 16 (drop 32 apiKey))) (utf8 token) \<noteq> []
             \<longrightarrow> (\<exists>out. encryptAES cipher token apiKey = Inr out \<and> matches_base64 out)))
   \<and> (48 \<le> length apiKey \<and> \<not> (\<forall>u \<in> set (take 48 apiKey). u < 0x80) \<longrightarrow>
        encryptAES cipher token apiKey = Inl AesEncryptionFailed)"
proof (intro conjI impI)
  assume "length apiKey < 48"
  then show "encryptAES cipher token apiKey = Inl ApiKeyTooShort"
    by (rule encryptAES_short)
next
  assume "48 \<le> length apiKey \<and> \<not> (\<forall>u \<in> set (take 48 apiKey). u < 0x80)"
  then show "encryptAES cipher token apiKey = Inl AesEncryptionFailed"
    by (simp add: encryptAES_long)
next
  assume a: "48 \<le> length apiKey \<and> (\<forall>u \<in> set (take 48 apiKey). u < 0x80)"
  then show ok: "encryptAES cipher token apiKey
      = Inr (base64 (cipher (utf8 (take 32 apiKey)) (utf8 (take 16 (drop 32 apiKey)))
              (utf8 token)))"
    by (simp add: encryptAES_long)
  from a key_iv_ascii [of apiKey]
  show "length (utf8 (take 32 apiKey)) = 32" and "length (utf8 (take 16 (drop 32 apiKey))) = 16"
    by blast+
  assume "cipher (utf8 (take 32 apiKey)) (utf8 (take 16 (drop 32 apiKey))) (utf8 token) \<noteq> []"
  then have "matches_base64 (base64 (cipher (utf8 (take 32 apiKey))
      (utf8 (take 16 (drop 32 apiKey))) (utf8 token)))"
    by (rule matches_base64_base64)
  with ok show "\<exists>out. encryptAES cipher token apiKey = Inr out \<and> matches_base64 out"
    by blast
qed

theorem encryptAES_key_material_witness:
  "(\<exists>out. encryptAES (\<lambda>key iv plaintext. plaintext @ [0x06, 0x06, 0x06, 0x06, 0x06, 0x06])
        (js ''test-token'') (js ''123456789012345678901234567890121234567890123456'') = Inr out
      \<and> matches_base64 out)
   \<and> encryptAES (\<lambda>key iv plaintext. plaintext @ [0x06, 0x06, 0x06, 0x06, 0x06, 0x06])
        (js ''test-token'') (replicate 47 0x61) = Inl ApiKeyTooShort
   \<and> encryptAES (\<lambda>key iv plaintext. plaintext @ [0x06, 0x06, 0x06, 0x06, 0x06, 0x06])
        (js ''test-token'') (replicate 48 0xE9) = Inl AesEncryptionFailed"
proof -
  let ?cipher = "\<lambda>key iv plaintext :: byte list. plaintext @ [0x06, 0x06, 0x06, 0x06, 0x06, 0x06 :: byte]"
  let ?key = "js ''123456789012345678901234567890121234567890123456''"
  have long: "48 \<le> length ?key"
    by (simp add: length_js)
  have ascii: "\<forall>u \<in> set (take 48 ?key). u < 0x80"
    by (simp add: js_def)
  have nonempty: "?cipher (utf8 (take 32 ?key)) (utf8 (take 16 (drop 32 ?key)))
      (utf8 (js ''test-token'')) \<noteq> []"
    by simp
  have short: "length (replicate 47 (0x61 :: code_unit)) < 48"
    by simp
  have "(0xE9 :: code_unit) \<in> set (take 48 (replicate 48 0xE9))" and "\<not> (0xE9 :: code_unit) < 0x80"
    by simp_all
  then have beyond: "48 \<le> length (replicate 48 (0xE9 :: code_unit))
      \<and> \<not> (\<forall>u \<in> set (take 48 (replicate 48 (0xE9 :: code_unit))). u < 0x80)"
    by (simp only: length_replicate order_refl) blast
  from long ascii nonempty
    encryptAES_key_material [of ?key ?cipher "js ''test-token''"]
  have "\<exists>out. encryptAES ?cipher (js ''test-token'') ?key = Inr out \<and> matches_base64 out"
    by blast
  moreover from short encryptAES_key_material [of "replicate 47 0x61" ?cipher "js ''test-token''"]
  have "encryptAES ?cipher (js ''test-token'') (replicate 47 0x61) = Inl ApiKeyTooShort"
    by blast
  moreover from beyond encryptAES_key_material [of "replicate 48 0xE9" ?cipher "js ''test-token''"]
  have "encryptAES ?cipher (js ''test-token'') (replicate 48 0xE9) = Inl AesEncryptionFailed"
    by blast
  ultimately show ?thesis
    by blast
qed

section \<open>Token cache\<close>

lemma count_update:
  "i < length xs \<Longrightarrow>
     length (filter P (xs[i := v])) + (if P (xs ! i) then 1 else 0)
       = length (filter P xs) + (if P v then 1 else 0)"
proof (induction xs arbitrary: i)
  case Nil
  then show ?case by simp
next
  case (Cons x xs)
  then show ?case by (cases i) auto
qed

lemma outstanding_issue:
  assumes "i < length calls" and "calls ! i \<noteq> AwaitingFetch"
  shows "outstanding (st, calls[i := AwaitingFetch]) = outstanding (st, calls) + 1"
  using count_update [OF assms(1), of "\<lambda>c. c = AwaitingFetch" AwaitingFetch] assms(2)
  by (simp add: outstanding_def)

lemma outstanding_return:
  assumes "i < length calls" and "calls ! i \<noteq> AwaitingFetch" and "c \<noteq> AwaitingFetch"
  shows "outstanding (st, calls[i := c]) = outstanding (st, calls)"
  using count_update [OF assms(1), of "\<lambda>c. c = AwaitingFetch" c] assms(2,3)
  by (simp add: outstanding_def)

lemma step_Call_miss:
  "i < length calls \<Longrightarrow> calls ! i = NotStarted \<Longrightarrow> cached st now = None \<Longrightarrow>
     step margin (Call i now) (st, calls) = (st, calls[i := AwaitingFetch])"
  by (simp add: getToken_start_def)

lemma step_Call_hit:
  "i < length calls \<Longrightarrow> calls ! i = NotStarted \<Longrightarrow> cached st now = Some t \<Longrightarrow>
     step margin (Call i now) (st, calls) = (st, calls[i := Returned t])"
  by (simp add: getToken_start_def)

lemma run_Cons: "run margin (e # events) cfg = run margin events (step margin e cfg)"
  by (simp add: run_def)

lemma run_Nil: "run margin [] cfg = cfg"
  by (simp add: run_def)

lemma run_calls_miss:
  assumes "\<forall>i < n. cached st (time i) = None" and "k \<le> n"
  shows "run margin (map (\<lambda>i. Call i (time i)) [k ..< n])
           (st, replicate k AwaitingFetch @ replicate (n - k) NotStarted)
         = (st, replicate n AwaitingFetch)"
  using assms(2)
proof (induction "n - k" arbitrary: k)
  case 0
  then show ?case by (simp add: run_Nil)
next
  case (Suc m)
  then have k: "k < n" and m: "m = n - Suc k" and le: "Suc k \<le> n"
    by simp_all
  let ?calls = "replicate k AwaitingFetch @ replicate (n - k) NotStarted"
  have cons: "replicate (n - k) NotStarted = NotStarted # replicate (n - Suc k) NotStarted"
    using k by (metis Suc_diff_Suc replicate_Suc)
  have "?calls ! k = NotStarted" and "k < length ?calls"
    using k by (simp_all add: nth_append)
  moreover from assms(1) k have "cached st (time k) = None"
    by simp
  ultimately have "step margin (Call k (time k)) (st, ?calls) = (st, ?calls[k := AwaitingFetch])"
    by (intro step_Call_miss)
  moreover have "?calls[k := AwaitingFetch]
      = replicate (Suc k) AwaitingFetch @ replicate (n - Suc k) NotStarted"
    by (simp add: cons list_update_append replicate_append_same)
  moreover have "[k ..< n] = k # [Suc k ..< n]"
    using k by (rule upt_conv_Cons)
  ultimately have "run margin (map (\<lambda>i. Call i (time i)) [k ..< n]) (st, ?calls)
      = run margin (map (\<lambda>i. Call i (time i)) [Suc k ..< n])
          (st, replicate (Suc k) AwaitingFetch @ replicate (n - Suc k) NotStarted)"
    by (simp only: list.map run_Cons)
  also have "\<dots> = (st, replicate n AwaitingFetch)"
    using m le by (rule Suc.hyps(1))
  finally show ?case .
qed

lemma cached_after_response:
  assumes "expires_date data = Some expiry" and "access_token data \<noteq> []"
    and "now < margin expiry"
  shows "cached (fst (getToken_resume margin st (Ok data))) now = Some (access_token data)"
  using assms by (simp add: getToken_resume_def cached_def Let_def)

text \<open>
  C9, as stated, fails: two callers enter \<open>getToken\<close> on a client with no token, one
  after the other and before any response; both requests are outstanding.
\<close>

theorem getToken_single_flight_counterexample:
  "outstanding (run (\<lambda>e. e - 300000) [Call 0 0, Call 1 0]
      (\<lparr>client_token = None, client_tokenExpiry = None\<rparr>, [NotStarted, NotStarted])) = 2"
  by (simp add: run_def outstanding_def getToken_start_def cached_def)

text \<open>
  C9, amended.  \<open>getToken\<close> has no single-flight refresh.  A call that finds no
  valid cached token (none yet, or an expired one) issues its own request and suspends,
  whatever requests are already outstanding, and writes nothing to the client before
  its response arrives; so of \<open>n\<close> callers that enter while no valid token is cached,
  each has its own request outstanding.  A call that finds a valid cached token returns
  it and issues no request; that is so for a call made after a response with a token
  that is not empty has been stored, and before the expiry the client computed from the
  one the response declares (five minutes earlier).
\<close>

theorem getToken_no_single_flight:
  "(i < length calls \<and> calls ! i = NotStarted \<and> cached st now = None \<longrightarrow>
      step margin (Call i now) (st, calls) = (st, calls[i := AwaitingFetch])
      \<and> outstanding (step margin (Call i now) (st, calls)) = outstanding (st, calls) + 1)
   \<and> (i < length calls \<and> calls ! i = NotStarted \<and> cached st now = Some t \<longrightarrow>
      step margin (Call i now) (st, calls) = (st, calls[i := Returned t])
      \<and> outstanding (step margin (Call i now) (st, calls)) = outstanding (st, calls))
   \<and> ((\<forall>j < n. cached st (time j) = None) \<longrightarrow>
      outstanding (run margin (map (\<lambda>j. Call j (time j)) [0 ..< n]) (st, replicate n NotStarted)) = n)
   \<and> (expires_date data = Some expiry \<and> access_token data \<noteq> [] \<and> now < margin expiry \<longrightarrow>
      cached (fst (getToken_resume margin st (Ok data))) now = Some (access_token data))"
proof (intro conjI impI)
  assume a: "i < length calls \<and> calls ! i = NotStarted \<and> cached st now = None"
  then show miss: "step margin (Call i now) (st, calls) = (st, calls[i := AwaitingFetch])"
    by (intro step_Call_miss) simp_all
  from a have "outstanding (st, calls[i := AwaitingFetch]) = outstanding (st, calls) + 1"
    by (intro outstanding_issue) simp_all
  then show "outstanding (step margin (Call i now) (st, calls)) = outstanding (st, calls) + 1"
    by (simp only: miss)
next
  assume a: "i < length calls \<and> calls ! i = NotStarted \<and> cached st now = Some t"
  then show hit: "step margin (Call i now) (st, calls) = (st, calls[i := Returned t])"
    by (intro step_Call_hit) simp_all
  from a have "outstanding (st, calls[i := Returned t]) = outstanding (st, calls)"
    by (intro outstanding_return) simp_all
  then show "outstanding (step margin (Call i now) (st, calls)) = outstanding (st, calls)"
    by (simp only: hit)
next
  assume "\<forall>j < n. cached st (time j) = None"
  then have "run margin (map (\<lambda>j. Call j (time j)) [0 ..< n])
      (st, replicate 0 AwaitingFetch @ replicate (n - 0) NotStarted)
      = (st, replicate n AwaitingFetch)"
    by (rule run_calls_miss) simp
  then show "outstanding (run margin (map (\<lambda>j. Call j (time j)) [0 ..< n])
      (st, replicate n NotStarted)) = n"
    by (simp add: outstanding_def)
next
  assume "expires_date data = Some expiry \<and> access_token data \<noteq> [] \<and> now < margin expiry"
  then show "cached (fst (getToken_resume margin st (Ok data))) now = Some (access_token data)"
    by (intro cached_after_response) blast+
qed

theorem getToken_no_single_flight_witness:
  "cached \<lparr>client_token = None, client_tokenExpiry = None\<rparr> 0 = None
   \<and> outstanding (step (\<lambda>e. e - 300000) (Call 1 0)
        (\<lparr>client_token = None, client_tokenExpiry = None\<rparr>, [AwaitingFetch, NotStarted])) = 2
   \<and> outstanding (run (\<lambda>e. e - 300000) (map (\<lambda>j. Call j 0) [0 ..< 3])
        (\<lparr>client_token = None, client_tokenExpiry = None\<rparr>, replicate 3 NotStarted)) = 3
   \<and> cached (fst (getToken_resume (\<lambda>e. e - 300000)
        \<lparr>client_token = None, client_tokenExpiry = None\<rparr>
        (Ok \<lparr>token_type = js ''bearer'', expires_date = Some 3600000,
             access_token = js ''abc''\<rparr>))) 1000 = Some (js ''abc'')
   \<and> outstanding (step (\<lambda>e. e - 300000) (Call 1 1000)
        (\<lparr>client_token = Some (js ''abc''), client_tokenExpiry = Some 3300000\<rparr>,
         [Returned (js ''abc''), NotStarted])) = 0"
proof -
  let ?margin = "\<lambda>e :: int. e - 300000"
  let ?empty = "\<lparr>client_token = None, client_tokenExpiry = None\<rparr>"
  let ?data = "\<lparr>token_type = js ''bearer'', expires_date = Some 3600000,
      access_token = js ''abc''\<rparr>"
  let ?full = "\<lparr>client_token = Some (js ''abc''), client_tokenExpiry = Some 3300000\<rparr>"
  have miss: "cached ?empty t = None" for t
    by (simp add: cached_def)
  have hit: "cached ?full 1000 = Some (js ''abc'')"
    by (simp add: cached_def js_def)
  have one: "outstanding (?empty, [AwaitingFetch, NotStarted]) = 1"
    and none: "outstanding (?full, [Returned (js ''abc''), NotStarted]) = 0"
    by (simp_all add: outstanding_def)
  have "1 < length [AwaitingFetch, NotStarted] \<and> [AwaitingFetch, NotStarted] ! 1 = NotStarted
      \<and> cached ?empty 0 = None"
    by (simp add: miss)
  with getToken_no_single_flight [where i = 1 and calls = "[AwaitingFetch, NotStarted]"
      and st = ?empty and now = 0 and margin = ?margin]
  have "outstanding (step ?margin (Call 1 0) (?empty, [AwaitingFetch, NotStarted]))
      = outstanding (?empty, [AwaitingFetch, NotStarted]) + 1"
    by blast
  then have a: "outstanding (step ?margin (Call 1 0) (?empty, [AwaitingFetch, NotStarted])) = 2"
    by (simp only: one)
  have "\<forall>j < 3. cached ?empty ((\<lambda>j. 0) j) = None"
    by (simp add: miss)
  with getToken_no_single_flight [where st = ?empty and n = 3 and time = "\<lambda>j. 0"
      and margin = ?margin]
  have b: "outstanding (run ?margin (map (\<lambda>j. Call j 0) [0 ..< 3])
      (?empty, replicate 3 NotStarted)) = 3"
    by blast
  have "expires_date ?data = Some 3600000 \<and> access_token ?data \<noteq> []
      \<and> (1000::int) < ?margin 3600000"
    by (simp add: js_def)
  with getToken_no_single_flight [where data = ?data and expiry = 3600000 and now = 1000
      and st = ?empty and margin = ?margin]
  have "cached (fst (getToken_resume ?margin ?empty (Ok ?data))) 1000
      = Some (access_token ?data)"
    by blast
  then have c: "cached (fst (getToken_resume ?margin ?empty (Ok ?data))) 1000 = Some (js ''abc'')"
    by simp
  have "1 < length [Returned (js ''abc''), NotStarted]
      \<and> [Returned (js ''abc''), NotStarted] ! 1 = NotStarted
      \<and> cached ?full 1000 = Some (js ''abc'')"
    by (simp add: hit)
  with getToken_no_single_flight [where i = 1 and calls = "[Returned (js ''abc''), NotStarted]"
      and st = ?full and now = 1000 and t = "js ''abc''" and margin = ?margin]
  have "outstanding (step ?margin (Call 1 1000) (?full, [Returned (js ''abc''), NotStarted]))
      = outstanding (?full, [Returned (js ''abc''), NotStarted])"
    by blast
  then have d: "outstanding (step ?margin (Call 1 1000)
      (?full, [Returned (js ''abc''), NotStarted])) = 0"
    by (simp only: none)
  from miss [of 0] a b c d show ?thesis
    by blast
qed

end
